theory Spec2Isabelle
  imports Complex_Main "HOL-Library.List_Lexorder" "HOL-Library.Char_ord" "HOL-Library.Multiset"
begin

section \<open>JavaScript numbers\<close>

text \<open>
  The analytics code of the tracker (routes \<open>analytics\<close>, \<open>journal\<close> and \<open>mood\<close>) computes
  with JavaScript numbers. A number is modelled as a real or one of the three special values
  of IEEE 754 that the code can produce by dividing by zero. Finite arithmetic is taken as
  exact (no rounding, no overflow). Zero is unsigned: every divisor in the modelled code is a
  length or a quotient of a sum started at \<open>0\<close> by a length, and neither is ever \<open>-0\<close>.
\<close>

datatype jsnum = Num real | PosInf | NegInf | NaN

fun js_neg :: "jsnum \<Rightarrow> jsnum" where
  "js_neg (Num a) = Num (- a)"
| "js_neg PosInf = NegInf"
| "js_neg NegInf = PosInf"
| "js_neg NaN = NaN"

fun js_add :: "jsnum \<Rightarrow> jsnum \<Rightarrow> jsnum" where
  "js_add (Num a) (Num b) = Num (a + b)"
| "js_add NaN _ = NaN"
| "js_add _ NaN = NaN"
| "js_add PosInf NegInf = NaN"
| "js_add NegInf PosInf = NaN"
| "js_add PosInf _ = PosInf"
| "js_add _ PosInf = PosInf"
| "js_add NegInf _ = NegInf"
| "js_add _ NegInf = NegInf"

definition js_sub :: "jsnum \<Rightarrow> jsnum \<Rightarrow> jsnum" where
  "js_sub a b = js_add a (js_neg b)"

fun js_is_zero :: "jsnum \<Rightarrow> bool" where
  "js_is_zero (Num a) = (a = 0)"
| "js_is_zero _ = False"

fun js_negative :: "jsnum \<Rightarrow> bool" where
  "js_negative (Num a) = (a < 0)"
| "js_negative NegInf = True"
| "js_negative _ = False"

fun js_mul :: "jsnum \<Rightarrow> jsnum \<Rightarrow> jsnum" where
  "js_mul (Num a) (Num b) = Num (a * b)"
| "js_mul NaN _ = NaN"
| "js_mul _ NaN = NaN"
| "js_mul x y =
     (if js_is_zero x \<or> js_is_zero y then NaN
      else if js_negative x = js_negative y then PosInf else NegInf)"

fun js_div :: "jsnum \<Rightarrow> jsnum \<Rightarrow> jsnum" where
  "js_div (Num a) (Num b) =
     (if b \<noteq> 0 then Num (a / b)
      else if a = 0 then NaN
      else if 0 < a then PosInf else NegInf)"
| "js_div NaN _ = NaN"
| "js_div _ NaN = NaN"
| "js_div (Num a) _ = Num 0"
| "js_div x (Num b) = (if js_negative x = (b < 0) then PosInf else NegInf)"
| "js_div _ _ = NaN"

fun js_lt :: "jsnum \<Rightarrow> jsnum \<Rightarrow> bool" where
  "js_lt (Num a) (Num b) = (a < b)"
| "js_lt NaN _ = False"
| "js_lt _ NaN = False"
| "js_lt _ NegInf = False"
| "js_lt NegInf _ = True"
| "js_lt PosInf _ = False"
| "js_lt _ PosInf = True"

definition js_gt :: "jsnum \<Rightarrow> jsnum \<Rightarrow> bool" where
  "js_gt a b = js_lt b a"

text \<open>\<open>Math.sqrt\<close>, \<open>Math.pow(x, 2)\<close>, and the binary steps of \<open>Math.min\<close> and \<open>Math.max\<close>.\<close>

fun Math_sqrt :: "jsnum \<Rightarrow> jsnum" where
  "Math_sqrt (Num a) = (if 0 \<le> a then Num (sqrt a) else NaN)"
| "Math_sqrt PosInf = PosInf"
| "Math_sqrt _ = NaN"

definition Math_pow2 :: "jsnum \<Rightarrow> jsnum" where
  "Math_pow2 x = js_mul x x"

fun js_min2 :: "jsnum \<Rightarrow> jsnum \<Rightarrow> jsnum" where
  "js_min2 NaN _ = NaN"
| "js_min2 _ NaN = NaN"
| "js_min2 a b = (if js_lt b a then b else a)"

fun js_max2 :: "jsnum \<Rightarrow> jsnum \<Rightarrow> jsnum" where
  "js_max2 NaN _ = NaN"
| "js_max2 _ NaN = NaN"
| "js_max2 a b = (if js_lt a b then b else a)"

text \<open>
  \<open>Math.min(...values)\<close> and \<open>Math.max(...values)\<close>: with no argument they are
  \<open>Infinity\<close> and \<open>-Infinity\<close>.
\<close>

definition Math_min :: "real list \<Rightarrow> jsnum" where
  "Math_min values = foldl (\<lambda>acc v. js_min2 acc (Num v)) PosInf values"

definition Math_max :: "real list \<Rightarrow> jsnum" where
  "Math_max values = foldl (\<lambda>acc v. js_max2 acc (Num v)) NegInf values"

text \<open>\<open>xs.reduce((a, b) => a + b, 0)\<close> and \<open>xs.reduce((a, b) => a + b, 0) / xs.length\<close>.\<close>

definition reduce_sum :: "real list \<Rightarrow> jsnum" where
  "reduce_sum xs = foldl (\<lambda>a b. js_add a (Num b)) (Num 0) xs"

definition js_length :: "'a list \<Rightarrow> jsnum" where
  "js_length xs = Num (real (length xs))"

definition average_of :: "real list \<Rightarrow> jsnum" where
  "average_of xs = js_div (reduce_sum xs) (js_length xs)"

section \<open>Mood entries and the mood score\<close>

text \<open>
  The \<open>mood\<close> field of a mood entry is a string restricted by the schema to five values
  (\<open>enum\<close> in \<open>models/MoodEntry.js\<close>); \<open>mood_key\<close> gives the string of each.
\<close>

datatype mood = very_sad | sad | neutral | happy | very_happy

definition mood_enum :: "mood list" where
  "mood_enum = [very_sad, sad, neutral, happy, very_happy]"

fun mood_key :: "mood \<Rightarrow> string" where
  "mood_key very_sad = ''very-sad''"
| "mood_key sad = ''sad''"
| "mood_key neutral = ''neutral''"
| "mood_key happy = ''happy''"
| "mood_key very_happy = ''very-happy''"

text \<open>
  A mood entry: \<open>date\<close> is the time value of the JavaScript \<open>Date\<close> (milliseconds since
  the epoch, UTC); \<open>sleep_hours\<close> is \<open>sleep.hours\<close>.
\<close>

record moodEntry =
  date :: int
  mood :: mood
  energy :: real
  stress :: real
  anxiety :: real
  sleep_hours :: real

text \<open>The virtual \<open>moodScore\<close>: the object literal \<open>moodMap\<close>, read at \<open>this.mood\<close>.\<close>

definition moodMap :: "(string \<times> real) list" where
  "moodMap =
     [(''very-sad'', 1), (''sad'', 2), (''neutral'', 3), (''happy'', 4), (''very-happy'', 5)]"

text \<open>
  A key that \<open>moodMap\<close> lacks would read \<open>undefined\<close>; no value of the enum does
  (lemma \<open>moodMap_total\<close>), so the second branch is never taken.
\<close>

definition moodScore :: "moodEntry \<Rightarrow> real" where
  "moodScore entry =
     (case map_of moodMap (mood_key (mood entry)) of Some score \<Rightarrow> score | None \<Rightarrow> 0)"

section \<open>Trend statistics (GET /api/analytics/trends)\<close>

datatype trend = increasing | decreasing | stable

record statistics =
  stat_min :: jsnum
  stat_max :: jsnum
  average :: jsnum
  trend :: trend
  volatility :: jsnum

datatype metric = mood_metric | energy_metric | stress_metric | anxiety_metric | sleep_metric

text \<open>The field each metric reads, and the \<open>switch (metric)\<close> that extracts the series.\<close>

fun metric_value :: "metric \<Rightarrow> moodEntry \<Rightarrow> real" where
  "metric_value mood_metric entry = moodScore entry"
| "metric_value energy_metric entry = energy entry"
| "metric_value stress_metric entry = stress entry"
| "metric_value anxiety_metric entry = anxiety entry"
| "metric_value sleep_metric entry = sleep_hours entry"

definition metric_values :: "metric \<Rightarrow> moodEntry list \<Rightarrow> real list" where
  "metric_values m moodEntries = map (metric_value m) moodEntries"

text \<open>The statistics object as the handler creates it, before any entry is looked at.\<close>

definition initial_statistics :: statistics where
  "initial_statistics =
     \<lparr>stat_min = Num 0, stat_max = Num 0, average = Num 0, trend = stable, volatility = Num 0\<rparr>"

text \<open>
  The block \<open>if (values.length >= 2) { ... }\<close>: the two halves, their averages, the
  relative change in percent and the three-way comparison.
\<close>

definition percent_change :: "real list \<Rightarrow> jsnum" where
  "percent_change values =
     (let firstHalf = take (length values div 2) values;
          secondHalf = drop (length values div 2) values;
          firstAvg = average_of firstHalf;
          secondAvg = average_of secondHalf
      in js_mul (js_div (js_sub secondAvg firstAvg) firstAvg) (Num 100))"

definition trend_direction :: "real list \<Rightarrow> trend" where
  "trend_direction values =
     (let change = percent_change values
      in if js_gt change (Num 5) then increasing
         else if js_lt change (Num (- 5)) then decreasing
         else stable)"

text \<open>The body of \<open>if (moodEntries.length > 0)\<close> after the values are extracted.\<close>

definition calculate_statistics :: "real list \<Rightarrow> statistics" where
  "calculate_statistics values =
     (let s1 = initial_statistics
            \<lparr>stat_min := Math_min values, stat_max := Math_max values,
             average := average_of values\<rparr>;
          s2 = (if 2 \<le> length values then s1\<lparr>trend := trend_direction values\<rparr> else s1);
          variance =
            js_div
              (foldl (\<lambda>acc val. js_add acc (Math_pow2 (js_sub (Num val) (average s2))))
                 (Num 0) values)
              (js_length values)
      in s2\<lparr>volatility := Math_sqrt variance\<rparr>)"

text \<open>
  The statistics the handler answers with for a value series: untouched when there is no
  entry (the series has one value per entry).
\<close>

definition trend_statistics :: "real list \<Rightarrow> statistics" where
  "trend_statistics values =
     (if 0 < length values then calculate_statistics values else initial_statistics)"

section \<open>Dates\<close>

definition msPerDay :: int where
  "msPerDay = 1000 * 60 * 60 * 24"

text \<open>
  The calendar of a time value, as the language defines it: the day number, the number of
  days of a year, the day number of the first day of a year, and the year of a day, which is
  the largest year that starts on or before it. That year is at most one off the estimate
  \<open>1970 + floor(400 * day / 146097)\<close> (lemma \<open>YearFromDay_bounds\<close>).
\<close>

definition Day :: "int \<Rightarrow> int" where
  "Day t = t div msPerDay"

definition DaysInYear :: "int \<Rightarrow> int" where
  "DaysInYear y =
     (if y mod 4 \<noteq> 0 then 365
      else if y mod 100 \<noteq> 0 then 366
      else if y mod 400 \<noteq> 0 then 365
      else 366)"

definition DayFromYear :: "int \<Rightarrow> int" where
  "DayFromYear y =
     365 * (y - 1970) + (y - 1969) div 4 - (y - 1901) div 100 + (y - 1601) div 400"

definition YearFromDay :: "int \<Rightarrow> int" where
  "YearFromDay day =
     (let y = 1970 + (400 * day) div 146097
      in if DayFromYear (y + 1) \<le> day then y + 1
         else if DayFromYear y \<le> day then y
         else y - 1)"

definition YearFromTime :: "int \<Rightarrow> int" where
  "YearFromTime t = YearFromDay (Day t)"

definition InLeapYear :: "int \<Rightarrow> int" where
  "InLeapYear t = (if DaysInYear (YearFromTime t) = 365 then 0 else 1)"

definition DayWithinYear :: "int \<Rightarrow> int" where
  "DayWithinYear t = Day t - DayFromYear (YearFromTime t)"

definition MonthFromTime :: "int \<Rightarrow> int" where
  "MonthFromTime t =
     (let d = DayWithinYear t; leap = InLeapYear t
      in if d < 31 then 0
         else if d < 59 + leap then 1
         else if d < 90 + leap then 2
         else if d < 120 + leap then 3
         else if d < 151 + leap then 4
         else if d < 181 + leap then 5
         else if d < 212 + leap then 6
         else if d < 243 + leap then 7
         else if d < 273 + leap then 8
         else if d < 304 + leap then 9
         else if d < 334 + leap then 10
         else 11)"

definition DateFromTime :: "int \<Rightarrow> int" where
  "DateFromTime t =
     (let d = DayWithinYear t; leap = InLeapYear t; m = MonthFromTime t
      in if m = 0 then d + 1
         else if m = 1 then d - 30
         else if m = 2 then d - 58 - leap
         else if m = 3 then d - 89 - leap
         else if m = 4 then d - 119 - leap
         else if m = 5 then d - 150 - leap
         else if m = 6 then d - 180 - leap
         else if m = 7 then d - 211 - leap
         else if m = 8 then d - 242 - leap
         else if m = 9 then d - 272 - leap
         else if m = 10 then d - 303 - leap
         else d - 333 - leap)"

text \<open>Decimal digits: of a number as it is, and the last \<open>width\<close> digits of a number.\<close>

definition digit_char :: "nat \<Rightarrow> char" where
  "digit_char d = ''0123456789'' ! (d mod 10)"

fun show_nat :: "nat \<Rightarrow> string" where
  "show_nat n = (if n < 10 then [digit_char n] else show_nat (n div 10) @ [digit_char n])"

declare show_nat.simps [simp del]

fun decimal :: "nat \<Rightarrow> nat \<Rightarrow> string" where
  "decimal 0 n = []"
| "decimal (Suc width) n = decimal width (n div 10) @ [digit_char n]"

text \<open>
  \<open>Date.prototype.toISOString\<close> up to the \<open>T\<close>, which is what
  \<open>entry.date.toISOString().split('T')[0]\<close> keeps: the UTC calendar day of a time value as
  \<open>YYYY-MM-DD\<close>, the year with a sign and six digits outside \<open>0 .. 9999\<close> (a
  \<open>Date\<close> has no year of more than six digits).
\<close>

definition iso_date :: "int \<Rightarrow> string" where
  "iso_date t =
     (let y = YearFromTime t
      in (if 0 \<le> y \<and> y \<le> 9999 then decimal 4 (nat y)
          else (if y < 0 then ''-'' else ''+'') @ decimal 6 (nat \<bar>y\<bar>))
         @ ''-'' @ decimal 2 (nat (MonthFromTime t + 1))
         @ ''-'' @ decimal 2 (nat (DateFromTime t)))"

section \<open>Plain objects used as dictionaries\<close>

text \<open>
  An object literal that the code fills by assignment is modelled by the list of its own
  properties in the order of their creation. \<open>Object.keys\<close> and \<open>Object.entries\<close> do
  not follow that order alone: own keys that are array indices (canonical decimal numerals up
  to \<open>2^32 - 2\<close>) come first, in ascending numeric order, and the other keys follow in
  creation order.
\<close>

type_synonym 'v jsobject = "(string \<times> 'v) list"

definition index_value :: "string \<Rightarrow> int" where
  "index_value s = foldl (\<lambda>n c. 10 * n + (int (of_char c) - 48)) 0 s"

definition is_array_index :: "string \<Rightarrow> bool" where
  "is_array_index s \<longleftrightarrow>
     s \<noteq> [] \<and> list_all (\<lambda>c. c \<in> set ''0123456789'') s \<and>
     (s = ''0'' \<or> hd s \<noteq> CHR ''0'') \<and> length s \<le> 10 \<and> index_value s \<le> 4294967294"

definition own_set :: "'v jsobject \<Rightarrow> string \<Rightarrow> 'v \<Rightarrow> 'v jsobject" where
  "own_set obj k v =
     (if map_of obj k = None then obj @ [(k, v)]
      else map (\<lambda>(k', v'). if k' = k then (k', v) else (k', v')) obj)"

definition Object_entries :: "'v jsobject \<Rightarrow> (string \<times> 'v) list" where
  "Object_entries obj =
     sort_key (\<lambda>(k, v). index_value k) (filter (\<lambda>(k, v). is_array_index k) obj)
     @ filter (\<lambda>(k, v). \<not> is_array_index k) obj"

definition Object_keys :: "'v jsobject \<Rightarrow> string list" where
  "Object_keys obj = map fst (Object_entries obj)"

text \<open>
  A read \<open>obj[k]\<close> of a key that is no own property finds what \<open>Object.prototype\<close>
  holds under that name (in Node.js: eleven functions and the accessor \<open>__proto__\<close>).
  The table gives, for each such name, the string the inherited value turns into when a
  number is added to it.
\<close>

definition Object_prototype :: "(string \<times> string) list" where
  "Object_prototype =
     [(''constructor'', ''function Object() { [native code] }''),
      (''__defineGetter__'', ''function __defineGetter__() { [native code] }''),
      (''__defineSetter__'', ''function __defineSetter__() { [native code] }''),
      (''hasOwnProperty'', ''function hasOwnProperty() { [native code] }''),
      (''__lookupGetter__'', ''function __lookupGetter__() { [native code] }''),
      (''__lookupSetter__'', ''function __lookupSetter__() { [native code] }''),
      (''isPrototypeOf'', ''function isPrototypeOf() { [native code] }''),
      (''propertyIsEnumerable'', ''function propertyIsEnumerable() { [native code] }''),
      (''toString'', ''function toString() { [native code] }''),
      (''valueOf'', ''function valueOf() { [native code] }''),
      (''__proto__'', ''[object Object]''),
      (''toLocaleString'', ''function toLocaleString() { [native code] }'')]"

text \<open>
  \<open>Array.prototype.sort(comparefn)\<close>: stable, an element \<open>a\<close> before \<open>b\<close> when
  \<open>comparefn(a, b) < 0\<close>. For a consistent comparator the result is fixed by the
  language; it is computed here by insertion from the right.
\<close>

fun insert_by :: "('a \<Rightarrow> 'a \<Rightarrow> int) \<Rightarrow> 'a \<Rightarrow> 'a list \<Rightarrow> 'a list" where
  "insert_by comparefn x [] = [x]"
| "insert_by comparefn x (y # ys) =
     (if comparefn x y \<le> 0 then x # y # ys else y # insert_by comparefn x ys)"

definition js_sort :: "('a \<Rightarrow> 'a \<Rightarrow> int) \<Rightarrow> 'a list \<Rightarrow> 'a list" where
  "js_sort comparefn xs = foldr (insert_by comparefn) xs []"

section \<open>Mood analytics (GET /api/analytics/overview, GET /api/mood/stats)\<close>

text \<open>
  Both handlers compute the same mood block from the mood entries of the period. They differ
  in the metrics they follow day by day: the overview follows five, the mood statistics
  leave sleep out. The model takes that list as \<open>metrics\<close>.
\<close>

definition overview_metrics :: "metric list" where
  "overview_metrics = [mood_metric, energy_metric, stress_metric, anxiety_metric, sleep_metric]"

definition mood_stats_metrics :: "metric list" where
  "mood_stats_metrics = [mood_metric, energy_metric, stress_metric, anxiety_metric]"

text \<open>
  \<open>moodDistribution\<close>: the object literal with its five counters, and
  \<open>moodDistribution[entry.mood]++\<close>. The key is always one of the five (lemma
  \<open>mood_key_in_distribution\<close>), so the read never finds \<open>undefined\<close>.
\<close>

definition initial_moodDistribution :: "nat jsobject" where
  "initial_moodDistribution =
     [(''very-sad'', 0), (''sad'', 0), (''neutral'', 0), (''happy'', 0), (''very-happy'', 0)]"

definition increment :: "nat jsobject \<Rightarrow> string \<Rightarrow> nat jsobject" where
  "increment obj k = (case map_of obj k of Some n \<Rightarrow> own_set obj k (n + 1) | None \<Rightarrow> obj)"

definition count_moods :: "moodEntry list \<Rightarrow> nat jsobject" where
  "count_moods moodEntries =
     foldl (\<lambda>dist entry. increment dist (mood_key (mood entry))) initial_moodDistribution
       moodEntries"

text \<open>
  \<open>dailyStats\<close>: an object keyed by the day, each value an object with one array per
  metric followed (a function from the metric to its array; no array for the others).
\<close>

type_synonym dayStats = "metric \<Rightarrow> real list"

definition empty_dayStats :: dayStats where
  "empty_dayStats = (\<lambda>m. [])"

definition push_metrics :: "metric list \<Rightarrow> dayStats \<Rightarrow> moodEntry \<Rightarrow> dayStats" where
  "push_metrics metrics dayStats entry =
     (\<lambda>m. if m \<in> set metrics then dayStats m @ [metric_value m entry] else dayStats m)"

text \<open>
  One step of the first \<open>forEach\<close>. A day key holds a \<open>-\<close> and so is never a name
  of \<open>Object.prototype\<close> (lemma \<open>iso_date_not_inherited\<close>): \<open>!dailyStats[dateKey]\<close>
  is true exactly when the key is no own property yet.
\<close>

definition dateKey :: "moodEntry \<Rightarrow> string" where
  "dateKey entry = iso_date (date entry)"

definition add_to_day :: "metric list \<Rightarrow> dayStats jsobject \<Rightarrow> moodEntry \<Rightarrow> dayStats jsobject" where
  "add_to_day metrics dailyStats entry =
     (case map_of dailyStats (dateKey entry) of
        None \<Rightarrow> own_set dailyStats (dateKey entry) (push_metrics metrics empty_dayStats entry)
      | Some dayStats \<Rightarrow> own_set dailyStats (dateKey entry) (push_metrics metrics dayStats entry))"

definition group_by_day :: "metric list \<Rightarrow> moodEntry list \<Rightarrow> dayStats jsobject" where
  "group_by_day metrics moodEntries = foldl (add_to_day metrics) [] moodEntries"

text \<open>
  The second \<open>forEach\<close>, over \<open>Object.keys(dailyStats).sort()\<close> (the default order of
  \<open>sort\<close>: strings by their code units): the series of one metric, a pair
  \<open>{date, value}\<close> per key. Every key is a key of the object, so the read
  \<open>dailyStats[date]\<close> finds its value and the second branch is never taken.
\<close>

definition daily_series :: "dayStats jsobject \<Rightarrow> metric \<Rightarrow> (string \<times> jsnum) list" where
  "daily_series dailyStats m =
     concat (map (\<lambda>date. case map_of dailyStats date of
                            Some dayStats \<Rightarrow> [(date, average_of (dayStats m))]
                          | None \<Rightarrow> [])
               (sort (Object_keys dailyStats)))"

record moodAnalytics =
  totalEntries :: nat
  averageMood :: jsnum
  averageEnergy :: jsnum
  averageStress :: jsnum
  averageAnxiety :: jsnum
  averageSleep :: jsnum
  moodDistribution :: "nat jsobject"
  trends :: "metric \<Rightarrow> (string \<times> jsnum) list"

definition initial_moodAnalytics :: "moodEntry list \<Rightarrow> moodAnalytics" where
  "initial_moodAnalytics moodEntries =
     \<lparr>totalEntries = length moodEntries, averageMood = Num 0, averageEnergy = Num 0,
      averageStress = Num 0, averageAnxiety = Num 0, averageSleep = Num 0,
      moodDistribution = initial_moodDistribution, trends = (\<lambda>m. [])\<rparr>"

definition mood_analytics :: "metric list \<Rightarrow> moodEntry list \<Rightarrow> moodAnalytics" where
  "mood_analytics metrics moodEntries =
     (if 0 < length moodEntries then
        (let moodScores = map moodScore moodEntries;
             energies = map energy moodEntries;
             stresses = map stress moodEntries;
             anxieties = map anxiety moodEntries;
             sleeps = map sleep_hours moodEntries;
             dailyStats = group_by_day metrics moodEntries
         in (initial_moodAnalytics moodEntries)
              \<lparr>averageMood := average_of moodScores,
               averageEnergy := average_of energies,
               averageStress := average_of stresses,
               averageAnxiety := average_of anxieties,
               averageSleep := average_of sleeps,
               moodDistribution := count_moods moodEntries,
               trends := (\<lambda>m. if m \<in> set metrics then daily_series dailyStats m else [])\<rparr>)
      else initial_moodAnalytics moodEntries)"

text \<open>The answer of GET /api/analytics/trends: the data points and the statistics.\<close>

definition trend_data :: "metric \<Rightarrow> moodEntry list \<Rightarrow> (string \<times> real) list" where
  "trend_data m moodEntries =
     (if 0 < length moodEntries
      then map (\<lambda>(entry, v). (dateKey entry, v)) (zip moodEntries (metric_values m moodEntries))
      else [])"

definition get_trends :: "metric \<Rightarrow> moodEntry list \<Rightarrow> (string \<times> real) list \<times> statistics" where
  "get_trends m moodEntries = (trend_data m moodEntries, trend_statistics (metric_values m moodEntries))"

section \<open>Journal analytics (GET /api/journal/stats, GET /api/analytics/overview)\<close>

record journalEntry =
  journal_date :: int
  tags :: "string list"

text \<open>
  \<open>journal_date\<close> is the \<open>date\<close> field of a journal entry (a time value, as in a
  mood entry). What \<open>tagCounts\<close> holds under a tag is a number or, once a tag is a name that
  \<open>Object.prototype\<close> knows, a string.
\<close>

datatype jsval = JNum nat | JStr string

text \<open>
  \<open>tagCounts[tag] = (tagCounts[tag] || 0) + 1\<close>. Assigning to \<open>__proto__\<close> calls the
  inherited setter, which ignores a string: no property is created.
\<close>

definition count_tag :: "jsval jsobject \<Rightarrow> string \<Rightarrow> jsval jsobject" where
  "count_tag tagCounts tag =
     (let incremented =
            (case map_of tagCounts tag of
               Some (JNum n) \<Rightarrow> JNum (n + 1)
             | Some (JStr s) \<Rightarrow> (if s = [] then JNum 1 else JStr (s @ ''1''))
             | None \<Rightarrow>
                 (case map_of Object_prototype tag of
                    Some inherited \<Rightarrow> JStr (inherited @ ''1'')
                  | None \<Rightarrow> JNum 1))
      in if tag = ''__proto__'' then tagCounts else own_set tagCounts tag incremented)"

definition count_tags :: "journalEntry list \<Rightarrow> jsval jsobject" where
  "count_tags journalEntries =
     foldl (\<lambda>tagCounts entry. foldl count_tag tagCounts (tags entry)) [] journalEntries"

text \<open>
  The comparator \<open>([,a], [,b]) => b - a\<close>. The strings that can occur are no numerals,
  so a difference with one of them is \<open>NaN\<close>, which \<open>sort\<close> takes for \<open>0\<close>.
\<close>

fun by_count_desc :: "string \<times> jsval \<Rightarrow> string \<times> jsval \<Rightarrow> int" where
  "by_count_desc (_, JNum a) (_, JNum b) = int b - int a"
| "by_count_desc _ _ = 0"

definition mostUsedTags :: "journalEntry list \<Rightarrow> (string \<times> jsval) list" where
  "mostUsedTags journalEntries =
     (if 0 < length journalEntries
      then map (\<lambda>(tag, count). (tag, count))
             (take 10 (js_sort by_count_desc (Object_entries (count_tags journalEntries))))
      else [])"

text \<open>
  The writing streak. \<open>setHours(0, 0, 0, 0)\<close> moves a date to the midnight of its day in
  the server's time zone, taken as a fixed \<open>offset\<close> (local time minus UTC, in
  milliseconds). \<open>now\<close> is the time of the request.
\<close>

definition setHours0 :: "int \<Rightarrow> int \<Rightarrow> int" where
  "setHours0 offset t = t - (t + offset) mod msPerDay"

definition by_date_desc :: "journalEntry \<Rightarrow> journalEntry \<Rightarrow> int" where
  "by_date_desc a b = journal_date b - journal_date a"

fun streak_loop :: "int \<Rightarrow> nat \<Rightarrow> int \<Rightarrow> journalEntry list \<Rightarrow> nat" where
  "streak_loop offset streak currentDate [] = streak"
| "streak_loop offset streak currentDate (entry # rest) =
     (let entryDate = setHours0 offset (journal_date entry);
          diffTime = currentDate - entryDate;
          diffDays = \<lceil>real_of_int diffTime / real_of_int (1000 * 60 * 60 * 24)\<rceil>
      in if diffDays = int streak + 1 \<or> (streak = 0 \<and> diffDays \<le> 1)
         then streak_loop offset (streak + 1) entryDate rest
         else streak)"

definition writingStreak :: "int \<Rightarrow> int \<Rightarrow> journalEntry list \<Rightarrow> nat" where
  "writingStreak offset now journalEntries =
     (if 0 < length journalEntries
      then (let sortedEntries = js_sort by_date_desc journalEntries
            in streak_loop offset 0 (setHours0 offset now) sortedEntries)
      else 0)"

section \<open>Insights and recommendations (GET /api/analytics/overview)\<close>

text \<open>
  What the last block of the handler reads: three averages of the mood analytics, the
  list \<open>topActivities\<close> of the activity analytics (name and category of each), and the
  streak and the number of entries of the journal analytics.
\<close>

record topActivity =
  name :: string
  category :: string

record overview =
  mood_averageMood :: jsnum
  mood_averageSleep :: jsnum
  mood_averageStress :: jsnum
  topActivities :: "topActivity list"
  journal_writingStreak :: nat
  journal_totalEntries :: nat

definition low_mood_insight :: string where
  "low_mood_insight = ''Your mood has been lower than average recently.''"

definition low_mood_recommendation :: string where
  "low_mood_recommendation =
     ''Consider engaging in activities that typically boost your mood, or reach out to a mental health professional.''"

definition great_mood_insight :: string where
  "great_mood_insight = ''You've been in a great mood lately! Keep up the positive energy.''"

definition sleep_insight :: string where
  "sleep_insight = ''Your sleep duration is below the recommended 7-9 hours.''"

definition sleep_recommendation :: string where
  "sleep_recommendation =
     ''Try to establish a consistent sleep schedule and create a relaxing bedtime routine.''"

definition stress_insight :: string where
  "stress_insight = ''Your stress levels have been high recently.''"

definition stress_recommendation :: string where
  "stress_recommendation =
     ''Consider stress-reduction techniques like meditation, deep breathing, or physical exercise.''"

definition activity_insight :: "topActivity \<Rightarrow> string" where
  "activity_insight a =
     ''Your most positive activity is '' @ name a @ '' ('' @ category a @ '').''"

definition activity_recommendation :: "topActivity \<Rightarrow> string" where
  "activity_recommendation a =
     ''Try to incorporate more '' @ name a @ '' into your daily routine.''"

definition streak_insight :: "nat \<Rightarrow> string" where
  "streak_insight n = ''Amazing! You have a '' @ show_nat n @ ''-day writing streak.''"

definition journal_recommendation :: string where
  "journal_recommendation = ''Try to write in your journal daily to build a consistent habit.''"

text \<open>
  The two arrays are threaded through the five statements of the block as a pair
  \<open>(insights, recommendations)\<close>; \<open>push\<close> appends.
\<close>

type_synonym advice = "string list \<times> string list"

definition mood_insights :: "overview \<Rightarrow> advice \<Rightarrow> advice" where
  "mood_insights v = (\<lambda>(insights, recommendations).
     if js_lt (mood_averageMood v) (Num 3)
     then (insights @ [low_mood_insight], recommendations @ [low_mood_recommendation])
     else if js_gt (mood_averageMood v) (Num 4)
     then (insights @ [great_mood_insight], recommendations)
     else (insights, recommendations))"

definition sleep_insights :: "overview \<Rightarrow> advice \<Rightarrow> advice" where
  "sleep_insights v = (\<lambda>(insights, recommendations).
     if js_lt (mood_averageSleep v) (Num 7)
     then (insights @ [sleep_insight], recommendations @ [sleep_recommendation])
     else (insights, recommendations))"

definition stress_insights :: "overview \<Rightarrow> advice \<Rightarrow> advice" where
  "stress_insights v = (\<lambda>(insights, recommendations).
     if js_gt (mood_averageStress v) (Num 7)
     then (insights @ [stress_insight], recommendations @ [stress_recommendation])
     else (insights, recommendations))"

definition activity_insights :: "overview \<Rightarrow> advice \<Rightarrow> advice" where
  "activity_insights v = (\<lambda>(insights, recommendations).
     case topActivities v of
       topActivity # _ \<Rightarrow>
         (insights @ [activity_insight topActivity],
          recommendations @ [activity_recommendation topActivity])
     | [] \<Rightarrow> (insights, recommendations))"

definition journal_insights :: "overview \<Rightarrow> advice \<Rightarrow> advice" where
  "journal_insights v = (\<lambda>(insights, recommendations).
     if 7 < journal_writingStreak v
     then (insights @ [streak_insight (journal_writingStreak v)], recommendations)
     else if journal_writingStreak v = 0 \<and> 0 < journal_totalEntries v
     then (insights, recommendations @ [journal_recommendation])
     else (insights, recommendations))"

definition insights_and_recommendations :: "overview \<Rightarrow> advice" where
  "insights_and_recommendations v =
     journal_insights v (activity_insights v (stress_insights v (sleep_insights v
       (mood_insights v ([], [])))))"

section \<open>Notions of the specification\<close>

text \<open>The arithmetic mean of a series, as the specification uses the word.\<close>

definition mean :: "real list \<Rightarrow> real" where
  "mean xs = sum_list xs / real (length xs)"

text \<open>
  The calendar day of a mood entry as a number (days since the epoch, UTC), the key of a day
  number, and the mood entries of one day number, in the order of the input.
\<close>

definition utc_day :: "moodEntry \<Rightarrow> int" where
  "utc_day entry = Day (date entry)"

definition day_key :: "int \<Rightarrow> string" where
  "day_key n = iso_date (n * msPerDay)"

definition of_day :: "int \<Rightarrow> moodEntry list \<Rightarrow> moodEntry list" where
  "of_day n moodEntries = filter (\<lambda>entry. utc_day entry = n) moodEntries"

text \<open>Years that \<open>toISOString\<close> writes with four digits.\<close>

definition four_digit_year :: "moodEntry \<Rightarrow> bool" where
  "four_digit_year entry \<longleftrightarrow> 0 \<le> YearFromTime (date entry) \<and> YearFromTime (date entry) \<le> 9999"

text \<open>The mood entries of one day key, in the order of the input.\<close>

definition on_day :: "string \<Rightarrow> moodEntry list \<Rightarrow> moodEntry list" where
  "on_day d moodEntries = filter (\<lambda>entry. dateKey entry = d) moodEntries"

text \<open>
  What \<open>dailyStats\<close> holds under a day once the first loop has gone through
  \<open>moodEntries\<close>: nothing for a day without entry, and else, for each metric followed, the
  values of the entries of that day.
\<close>

definition grouped :: "metric list \<Rightarrow> moodEntry list \<Rightarrow> string \<Rightarrow> dayStats option" where
  "grouped metrics moodEntries d =
     (if d \<in> dateKey ` set moodEntries
      then Some (\<lambda>m. if m \<in> set metrics then map (metric_value m) (on_day d moodEntries) else [])
      else None)"

section \<open>The specification's procedures\<close>

text \<open>
  The streak procedure in the words of the specification: the dates in descending order,
  each moved to midnight; a walk that starts with streak 0 at \<open>today\<close>, goes on while the
  record is the expected number of days before the cursor, and looks at no record after the
  first that is not.
\<close>

record walk =
  streak :: nat
  cursor :: int
  stopped :: bool

definition days_between :: "int \<Rightarrow> int \<Rightarrow> int" where
  "days_between c entryDate = - ((entryDate - c) div msPerDay)"

definition walk_step :: "walk \<Rightarrow> int \<Rightarrow> walk" where
  "walk_step w entryDate =
     (if stopped w then w
      else if days_between (cursor w) entryDate = int (streak w) + 1
              \<or> (streak w = 0 \<and> days_between (cursor w) entryDate \<le> 1)
      then w\<lparr>streak := streak w + 1, cursor := entryDate\<rparr>
      else w\<lparr>stopped := True\<rparr>)"

definition streak_procedure :: "int \<Rightarrow> int \<Rightarrow> journalEntry list \<Rightarrow> nat" where
  "streak_procedure offset today records =
     streak (foldl walk_step \<lparr>streak = 0, cursor = today, stopped = False\<rparr>
               (map (setHours0 offset) (rev (sort (map journal_date records)))))"

text \<open>
  The frequency ranker in the words of the specification: the tags of all records in the
  order of the records, the number of times each occurs, the pairs sorted by descending count
  with a stable sort over the order in which the tags were first seen, and the first \<open>n\<close>
  of them.
\<close>

definition all_tags :: "journalEntry list \<Rightarrow> string list" where
  "all_tags journalEntries = concat (map tags journalEntries)"

definition first_seen :: "string list \<Rightarrow> string list" where
  "first_seen ts = rev (remdups (rev ts))"

definition frequency_ranker :: "nat \<Rightarrow> string list \<Rightarrow> (string \<times> nat) list" where
  "frequency_ranker n ts =
     take n (sort_key (\<lambda>(t, c). - int c) (map (\<lambda>t. (t, count_list ts t)) (first_seen ts)))"

text \<open>
  The same with the ties in the order in which a plain object lists its keys: tags that are
  array indices first, in ascending numeric order, then the others as first seen.
\<close>

definition key_order :: "string list \<Rightarrow> string list" where
  "key_order ks = sort_key index_value (filter is_array_index ks) @ filter (\<lambda>k. \<not> is_array_index k) ks"

definition ranker_in_key_order :: "nat \<Rightarrow> string list \<Rightarrow> (string \<times> nat) list" where
  "ranker_in_key_order n ts =
     take n (sort_key (\<lambda>(t, c). - int c)
       (map (\<lambda>t. (t, count_list ts t)) (key_order (first_seen ts))))"

text \<open>A tag that is the name of a property of \<open>Object.prototype\<close>.\<close>

definition inherited :: "string \<Rightarrow> bool" where
  "inherited t \<longleftrightarrow> map_of Object_prototype t \<noteq> None"

text \<open>
  The rule table of the specification: seven rules in order, each a condition on the input
  with the insight and the recommendation it gives when the condition holds (either may be
  missing). The rules are looked at one by one, each by itself.
\<close>

record rule =
  condition :: "overview \<Rightarrow> bool"
  insight :: "overview \<Rightarrow> string option"
  recommendation :: "overview \<Rightarrow> string option"

definition top_ranked :: "overview \<Rightarrow> topActivity option" where
  "top_ranked v = (case topActivities v of [] \<Rightarrow> None | a # _ \<Rightarrow> Some a)"

definition rule_table :: "rule list" where
  "rule_table =
     [\<lparr>condition = (\<lambda>v. js_lt (mood_averageMood v) (Num 3)),
       insight = (\<lambda>v. Some low_mood_insight),
       recommendation = (\<lambda>v. Some low_mood_recommendation)\<rparr>,
      \<lparr>condition = (\<lambda>v. js_gt (mood_averageMood v) (Num 4)),
       insight = (\<lambda>v. Some great_mood_insight),
       recommendation = (\<lambda>v. None)\<rparr>,
      \<lparr>condition = (\<lambda>v. js_lt (mood_averageSleep v) (Num 7)),
       insight = (\<lambda>v. Some sleep_insight),
       recommendation = (\<lambda>v. Some sleep_recommendation)\<rparr>,
      \<lparr>condition = (\<lambda>v. js_gt (mood_averageStress v) (Num 7)),
       insight = (\<lambda>v. Some stress_insight),
       recommendation = (\<lambda>v. Some stress_recommendation)\<rparr>,
      \<lparr>condition = (\<lambda>v. top_ranked v \<noteq> None),
       insight = (\<lambda>v. map_option activity_insight (top_ranked v)),
       recommendation = (\<lambda>v. map_option activity_recommendation (top_ranked v))\<rparr>,
      \<lparr>condition = (\<lambda>v. 7 < journal_writingStreak v),
       insight = (\<lambda>v. Some (streak_insight (journal_writingStreak v))),
       recommendation = (\<lambda>v. None)\<rparr>,
      \<lparr>condition = (\<lambda>v. journal_writingStreak v = 0 \<and> 0 < journal_totalEntries v),
       insight = (\<lambda>v. None),
       recommendation = (\<lambda>v. Some journal_recommendation)\<rparr>]"

definition table_insights :: "overview \<Rightarrow> string list" where
  "table_insights v =
     List.map_filter (\<lambda>r. if condition r v then insight r v else None) rule_table"

definition table_recommendations :: "overview \<Rightarrow> string list" where
  "table_recommendations v =
     List.map_filter (\<lambda>r. if condition r v then recommendation r v else None) rule_table"

section \<open>Sums, averages and extrema of finite series\<close>

lemma foldl_js_add_Num:
  "foldl (\<lambda>a b. js_add a (Num b)) (Num s) xs = Num (s + sum_list xs)"
  by (induction xs arbitrary: s) (simp_all add: algebra_simps)

lemma reduce_sum_Num: "reduce_sum xs = Num (sum_list xs)"
  by (simp add: reduce_sum_def foldl_js_add_Num)

lemma average_of_mean: "xs \<noteq> [] \<Longrightarrow> average_of xs = Num (mean xs)"
  by (simp add: average_of_def reduce_sum_Num js_length_def mean_def)






section \<open>The trend statistics\<close>
















section \<open>The mood score and the mood distribution\<close>

lemma moodMap_total: "map_of moodMap (mood_key m) \<noteq> None"
  by (cases m) (simp_all add: moodMap_def)

lemma moodScore_cases:
  "moodScore entry =
     (case mood entry of very_sad \<Rightarrow> 1 | sad \<Rightarrow> 2 | neutral \<Rightarrow> 3 | happy \<Rightarrow> 4 | very_happy \<Rightarrow> 5)"
  by (cases "mood entry") (simp_all add: moodScore_def moodMap_def)

lemma mood_key_in_distribution: "map_of initial_moodDistribution (mood_key m) \<noteq> None"
  by (cases m) (simp_all add: initial_moodDistribution_def)

lemma increment_counts:
  "increment (map (\<lambda>m. (mood_key m, c m)) mood_enum) (mood_key k)
     = map (\<lambda>m. (mood_key m, (c(k := c k + 1)) m)) mood_enum"
  by (cases k) (simp_all add: increment_def own_set_def mood_enum_def)

lemma foldl_increment_counts:
  "foldl (\<lambda>dist entry. increment dist (mood_key (mood entry)))
       (map (\<lambda>m. (mood_key m, c m)) mood_enum) moodEntries
     = map (\<lambda>m. (mood_key m, c m + length (filter (\<lambda>e. mood e = m) moodEntries))) mood_enum"
proof (induction moodEntries arbitrary: c)
  case Nil
  show ?case by simp
next
  case (Cons e es)
  have "(\<lambda>m. (mood_key m, (c(mood e := c (mood e) + 1)) m + length (filter (\<lambda>e. mood e = m) es)))
      = (\<lambda>m. (mood_key m, c m + length (filter (\<lambda>e. mood e = m) (e # es))))"
    by (rule ext) simp
  then show ?case
    using Cons.IH [of "c(mood e := c (mood e) + 1)"]
    by (simp add: increment_counts)
qed

lemma count_moods_explicit:
  "count_moods moodEntries
     = map (\<lambda>m. (mood_key m, length (filter (\<lambda>e. mood e = m) moodEntries))) mood_enum"
  using foldl_increment_counts [of "\<lambda>m. 0" moodEntries]
  by (simp add: count_moods_def initial_moodDistribution_def mood_enum_def)

lemma mood_counts_sum:
  "(\<Sum>m\<leftarrow>mood_enum. length (filter (\<lambda>e. mood e = m) moodEntries)) = length moodEntries"
proof (induction moodEntries)
  case Nil
  show ?case by (simp add: mood_enum_def)
next
  case (Cons e es)
  then show ?case by (cases "mood e") (simp_all add: mood_enum_def)
qed

lemma moodDistribution_count_moods:
  "moodDistribution (mood_analytics metrics moodEntries) = count_moods moodEntries"
  by (cases moodEntries)
    (simp_all add: mood_analytics_def Let_def initial_moodAnalytics_def count_moods_def)

text \<open>
  Claim C10. The mood distribution of the mood analytics has a counter for each of the five
  categories, in the order of the object literal; the counter of a category is the number of
  entries with that mood, so every entry is counted in one counter only; and the five
  counters add up to \<open>totalEntries\<close>, the number of entries.
\<close>

theorem moodDistribution_partition:
  "map fst (moodDistribution (mood_analytics metrics moodEntries))
     = [''very-sad'', ''sad'', ''neutral'', ''happy'', ''very-happy'']
   \<and> map_of (moodDistribution (mood_analytics metrics moodEntries)) (mood_key m)
     = Some (length (filter (\<lambda>e. mood e = m) moodEntries))
   \<and> sum_list (map snd (moodDistribution (mood_analytics metrics moodEntries)))
     = length moodEntries
   \<and> totalEntries (mood_analytics metrics moodEntries) = length moodEntries"
proof -
  have "map fst (count_moods moodEntries) = [''very-sad'', ''sad'', ''neutral'', ''happy'', ''very-happy'']"
    by (simp add: count_moods_explicit mood_enum_def)
  moreover have "map_of (count_moods moodEntries) (mood_key m)
     = Some (length (filter (\<lambda>e. mood e = m) moodEntries))"
    by (cases m) (simp_all add: count_moods_explicit mood_enum_def)
  moreover have "sum_list (map snd (count_moods moodEntries)) = length moodEntries"
    using mood_counts_sum [of moodEntries]
    by (simp add: count_moods_explicit comp_def)
  moreover have "totalEntries (mood_analytics metrics moodEntries) = length moodEntries"
    by (simp add: mood_analytics_def Let_def initial_moodAnalytics_def)
  ultimately show ?thesis by (simp add: moodDistribution_count_moods)
qed

theorem moodDistribution_partition_witness:
  "moodDistribution (mood_analytics overview_metrics
      [\<lparr>date = 0, mood = happy, energy = 5, stress = 5, anxiety = 5, sleep_hours = 8\<rparr>,
       \<lparr>date = 86400000, mood = sad, energy = 5, stress = 5, anxiety = 5, sleep_hours = 8\<rparr>,
       \<lparr>date = 172800000, mood = happy, energy = 5, stress = 5, anxiety = 5, sleep_hours = 8\<rparr>])
     = [(''very-sad'', 0), (''sad'', 1), (''neutral'', 0), (''happy'', 2), (''very-happy'', 0)]"
  using moodDistribution_partition [of overview_metrics
      "[\<lparr>date = 0, mood = happy, energy = 5, stress = 5, anxiety = 5, sleep_hours = 8\<rparr>,
        \<lparr>date = 86400000, mood = sad, energy = 5, stress = 5, anxiety = 5, sleep_hours = 8\<rparr>,
        \<lparr>date = 172800000, mood = happy, energy = 5, stress = 5, anxiety = 5, sleep_hours = 8\<rparr>]"]
  by (simp add: moodDistribution_count_moods count_moods_explicit mood_enum_def)

section \<open>The calendar\<close>

lemma div_succ:
  fixes a n :: int
  assumes "0 < n"
  shows "(a + 1) div n = a div n + (if a mod n = n - 1 then 1 else 0)"
proof (cases "a mod n = n - 1")
  case True
  have "n * (a div n) + a mod n = a"
    by (rule mult_div_mod_eq)
  then have "a + 1 = n * (a div n + 1) + 0"
    using True by (simp add: algebra_simps)
  then have "(a + 1) div n = a div n + 1"
    using assms by (intro int_div_pos_eq [where r = 0]) auto
  then show ?thesis using True by simp
next
  case False
  have bounds: "0 \<le> a mod n" "a mod n < n"
    using assms by simp_all
  have "n * (a div n) + a mod n = a"
    by (rule mult_div_mod_eq)
  then have "a + 1 = n * (a div n) + (a mod n + 1)"
    by (simp add: algebra_simps)
  then have "(a + 1) div n = a div n"
    using bounds False by (intro int_div_pos_eq [where r = "a mod n + 1"]) auto
  then show ?thesis using False by simp
qed

lemma mod_last_iff:
  fixes a n :: int
  assumes "0 < n"
  shows "a mod n = n - 1 \<longleftrightarrow> n dvd (a + 1)"
proof -
  have bounds: "0 \<le> a mod n" "a mod n < n"
    using assms by simp_all
  have "(a + 1) mod n = (a mod n + 1) mod n"
    by (simp add: mod_add_left_eq)
  also have "\<dots> = (if a mod n = n - 1 then 0 else a mod n + 1)"
    using bounds by (auto simp: mod_pos_pos_trivial)
  finally have "(a + 1) mod n = 0 \<longleftrightarrow> a mod n = n - 1"
    using bounds by auto
  then show ?thesis by (simp add: dvd_eq_mod_eq_0)
qed


lemma DayFromYear_step: "DayFromYear (y + 1) = DayFromYear y + DaysInYear y"
proof -
  have four: "(y + 1 - 1969) div 4 = (y - 1969) div 4 + (if 4 dvd y then 1 else 0)"
  proof -
    have "4 dvd y \<longleftrightarrow> 4 dvd (y - 1969 + 1)"
      using dvd_diff_right_iff [of 4 1968 y] by (simp add: dvd_diff_commute)
    then show ?thesis
      using div_succ [of 4 "y - 1969"] mod_last_iff [of 4 "y - 1969"] by (simp add: algebra_simps)
  qed
  have hundred: "(y + 1 - 1901) div 100 = (y - 1901) div 100 + (if 100 dvd y then 1 else 0)"
  proof -
    have "100 dvd y \<longleftrightarrow> 100 dvd (y - 1901 + 1)"
      using dvd_diff_right_iff [of 100 1900 y] by (simp add: dvd_diff_commute)
    then show ?thesis
      using div_succ [of 100 "y - 1901"] mod_last_iff [of 100 "y - 1901"] by (simp add: algebra_simps)
  qed
  have four_hundred: "(y + 1 - 1601) div 400 = (y - 1601) div 400 + (if 400 dvd y then 1 else 0)"
  proof -
    have "400 dvd y \<longleftrightarrow> 400 dvd (y - 1601 + 1)"
      using dvd_diff_right_iff [of 400 1600 y] by (simp add: dvd_diff_commute)
    then show ?thesis
      using div_succ [of 400 "y - 1601"] mod_last_iff [of 400 "y - 1601"] by (simp add: algebra_simps)
  qed
  have "400 dvd y \<Longrightarrow> 100 dvd y" "100 dvd y \<Longrightarrow> 4 dvd y"
    by (auto elim: dvd_trans [rotated])
  then show ?thesis
    unfolding DayFromYear_def DaysInYear_def
    by (simp only: four hundred four_hundred) (auto simp: dvd_eq_mod_eq_0 [symmetric])
qed


lemma DaysInYear_cases: "DaysInYear y = 365 \<or> DaysInYear y = 366"
  by (simp add: DaysInYear_def)

lemma DayFromYear_less_succ: "DayFromYear y < DayFromYear (y + 1)"
  using DaysInYear_cases [of y] by (auto simp: DayFromYear_step)

lemma DayFromYear_strict_mono: "y < y' \<Longrightarrow> DayFromYear y < DayFromYear y'"
proof (induction y' rule: int_gr_induct)
  case base
  show ?case by (rule DayFromYear_less_succ)
next
  case (step i)
  then show ?case using DayFromYear_less_succ [of i] by linarith
qed

lemma DayFromYear_mono: "y \<le> y' \<Longrightarrow> DayFromYear y \<le> DayFromYear y'"
  using DayFromYear_strict_mono [of y y'] by (cases "y = y'") auto

lemma div_bounds:
  fixes a n :: int
  assumes "0 < n"
  shows "n * (a div n) \<le> a" "a < n * (a div n) + n"
proof -
  have "n * (a div n) + a mod n = a" by (rule mult_div_mod_eq)
  moreover have "0 \<le> a mod n" "a mod n < n" using assms by simp_all
  ultimately show "n * (a div n) \<le> a" "a < n * (a div n) + n" by linarith+
qed

lemma year_estimate:
  fixes day :: int
  defines "y \<equiv> 1970 + (400 * day) div 146097"
  shows "DayFromYear (y - 1) \<le> day" "day < DayFromYear (y + 2)"
proof -
  define k where "k = (400 * day) div 146097"
  have y: "y = 1970 + k" by (simp add: y_def k_def)
  have k: "146097 * k \<le> 400 * day" "400 * day < 146097 * k + 146097"
    unfolding k_def by (rule div_bounds; simp)+
  have lower: "DayFromYear (y - 1)
      = 365 * (k - 1) + k div 4 - (k + 68) div 100 + (k + 368) div 400"
    by (simp add: DayFromYear_def y algebra_simps)
  have upper: "DayFromYear (y + 2)
      = 365 * (k + 2) + (k + 3) div 4 - (k + 71) div 100 + (k + 371) div 400"
    by (simp add: DayFromYear_def y algebra_simps)
  define a where "a = k div 4"
  define b where "b = (k + 68) div 100"
  define c where "c = (k + 368) div 400"
  define a' where "a' = (k + 3) div 4"
  define b' where "b' = (k + 71) div 100"
  define c' where "c' = (k + 371) div 400"
  have b4: "4 * a \<le> k" "k + 3 < 4 * a' + 4"
    unfolding a_def a'_def using div_bounds [of 4 k] div_bounds [of 4 "k + 3"] by simp_all
  have b100: "k + 68 < 100 * b + 100" "100 * b' \<le> k + 71"
    unfolding b_def b'_def using div_bounds [of 100 "k + 68"] div_bounds [of 100 "k + 71"]
    by simp_all
  have b400: "400 * c \<le> k + 368" "k + 371 < 400 * c' + 400"
    unfolding c_def c'_def using div_bounds [of 400 "k + 368"] div_bounds [of 400 "k + 371"]
    by simp_all
  have "400 * a \<le> 100 * k" "4 * k - 128 < 400 * b"
    using b4(1) b100(1) by simp_all
  then have "146000 * k - 146000 + 400 * a - 400 * b + 400 * c \<le> 400 * day"
    using k(1) b400(1) by linarith
  then have "365 * (k - 1) + a - b + c \<le> day"
    by (simp add: algebra_simps)
  then show "DayFromYear (y - 1) \<le> day"
    by (simp only: lower a_def b_def c_def)
  have "100 * k < 400 * a' + 100" "400 * b' \<le> 4 * k + 284"
    using b4(2) b100(2) by simp_all
  then have "400 * day < 146000 * k + 292000 + 400 * a' - 400 * b' + 400 * c'"
    using k(2) b400(2) by linarith
  then have "day < 365 * (k + 2) + a' - b' + c'"
    by (simp add: algebra_simps)
  then show "day < DayFromYear (y + 2)"
    by (simp only: upper a'_def b'_def c'_def)
qed

lemma YearFromDay_bounds:
  "DayFromYear (YearFromDay day) \<le> day" "day < DayFromYear (YearFromDay day + 1)"
  using year_estimate [of day]
  by (auto simp: YearFromDay_def Let_def algebra_simps)

lemma YearFromDay_mono:
  assumes "day \<le> day'"
  shows "YearFromDay day \<le> YearFromDay day'"
proof (rule ccontr)
  assume "\<not> YearFromDay day \<le> YearFromDay day'"
  then have "YearFromDay day' + 1 \<le> YearFromDay day" by simp
  then have "DayFromYear (YearFromDay day' + 1) \<le> DayFromYear (YearFromDay day)"
    by (rule DayFromYear_mono)
  then show False
    using YearFromDay_bounds(1) [of day] YearFromDay_bounds(2) [of day'] assms by linarith
qed


lemma DayWithinYear_bounds:
  "0 \<le> DayWithinYear t" "DayWithinYear t < DaysInYear (YearFromTime t)"
  using YearFromDay_bounds [of "Day t"] DayFromYear_step [of "YearFromDay (Day t)"]
  by (simp_all add: DayWithinYear_def YearFromTime_def)

lemma DayWithinYear_less:
  "0 \<le> DayWithinYear t" "DayWithinYear t < 365 + InLeapYear t"
  using DayWithinYear_bounds [of t] DaysInYear_cases [of "YearFromTime t"]
  by (auto simp: InLeapYear_def)

lemma InLeapYear_cases: "InLeapYear t = 0 \<or> InLeapYear t = 1"
  by (simp add: InLeapYear_def)

lemma MonthFromTime_bounds: "0 \<le> MonthFromTime t" "MonthFromTime t \<le> 11"
  by (simp_all add: MonthFromTime_def Let_def)

lemma DateFromTime_bounds: "1 \<le> DateFromTime t" "DateFromTime t \<le> 31"
  using DayWithinYear_less [of t] InLeapYear_cases [of t]
  by (auto simp: DateFromTime_def MonthFromTime_def Let_def)

lemma month_date_mono:
  assumes "DayWithinYear t < DayWithinYear t'" and "InLeapYear t = InLeapYear t'"
  shows "MonthFromTime t < MonthFromTime t'
     \<or> (MonthFromTime t = MonthFromTime t' \<and> DateFromTime t < DateFromTime t')"
proof -
  define d where "d = DayWithinYear t"
  define d' where "d' = DayWithinYear t'"
  define l where "l = InLeapYear t'"
  have less: "d < d'" and leap: "l = 0 \<or> l = 1"
    using assms(1) InLeapYear_cases [of t'] by (simp_all add: d_def d'_def l_def)
  have m: "MonthFromTime t =
      (if d < 31 then 0 else if d < 59 + l then 1 else if d < 90 + l then 2
       else if d < 120 + l then 3 else if d < 151 + l then 4 else if d < 181 + l then 5
       else if d < 212 + l then 6 else if d < 243 + l then 7 else if d < 273 + l then 8
       else if d < 304 + l then 9 else if d < 334 + l then 10 else 11)"
    by (simp add: MonthFromTime_def Let_def d_def l_def assms(2))
  have m': "MonthFromTime t' =
      (if d' < 31 then 0 else if d' < 59 + l then 1 else if d' < 90 + l then 2
       else if d' < 120 + l then 3 else if d' < 151 + l then 4 else if d' < 181 + l then 5
       else if d' < 212 + l then 6 else if d' < 243 + l then 7 else if d' < 273 + l then 8
       else if d' < 304 + l then 9 else if d' < 334 + l then 10 else 11)"
    by (simp add: MonthFromTime_def Let_def d'_def l_def)
  have mono: "MonthFromTime t \<le> MonthFromTime t'"
    unfolding m m' using less by (simp split: if_splits)
  have same: "DateFromTime t' - DateFromTime t = d' - d" if "MonthFromTime t = MonthFromTime t'"
    using that
    by (simp add: DateFromTime_def Let_def d_def [symmetric] d'_def [symmetric] l_def [symmetric]
          assms(2))
  show ?thesis
    using mono same less by (cases "MonthFromTime t = MonthFromTime t'") auto
qed

lemma civil_strict_mono:
  assumes "Day t < Day t'"
  shows "YearFromTime t < YearFromTime t'
     \<or> (YearFromTime t = YearFromTime t'
         \<and> (MonthFromTime t < MonthFromTime t'
             \<or> (MonthFromTime t = MonthFromTime t' \<and> DateFromTime t < DateFromTime t')))"
proof (cases "YearFromTime t = YearFromTime t'")
  case True
  then have "DayWithinYear t < DayWithinYear t'" "InLeapYear t = InLeapYear t'"
    using assms by (simp_all add: DayWithinYear_def InLeapYear_def)
  then show ?thesis using True month_date_mono by blast
next
  case False
  moreover have "YearFromTime t \<le> YearFromTime t'"
    unfolding YearFromTime_def using assms by (intro YearFromDay_mono) simp
  ultimately show ?thesis by simp
qed

lemma digit_char_less: "a < b \<Longrightarrow> b < 10 \<Longrightarrow> digit_char a < digit_char b"
proof -
  have "\<forall>b\<in>{0..<10}. \<forall>a\<in>{0..<b}. digit_char a < digit_char b"
    by code_simp
  then show "a < b \<Longrightarrow> b < 10 \<Longrightarrow> digit_char a < digit_char b"
    by simp
qed

lemma length_decimal: "length (decimal w n) = w"
  by (induction w arbitrary: n) simp_all

lemma less_append_same_length:
  fixes xs ys :: "'a::linorder list"
  shows "xs < ys \<Longrightarrow> length xs = length ys \<Longrightarrow> xs @ u < ys @ v"
  by (simp add: list_less_def lexord_sufI)

lemma less_append_same_prefix:
  fixes u v :: "'a::linorder list"
  shows "u < v \<Longrightarrow> xs @ u < xs @ v"
  by (simp add: list_less_def lexord_append_leftI)

lemma decimal_less: "a < b \<Longrightarrow> b < 10 ^ w \<Longrightarrow> decimal w a < decimal w b"
proof (induction w arbitrary: a b)
  case 0
  then show ?case by simp
next
  case (Suc w)
  have le: "a div 10 \<le> b div 10" using Suc.prems(1) by (simp add: div_le_mono)
  have bound: "b div 10 < 10 ^ w" using Suc.prems(2) by (simp add: less_mult_imp_div_less mult.commute)
  show ?case
  proof (cases "a div 10 = b div 10")
    case True
    then have "a mod 10 < b mod 10"
      using Suc.prems(1) by (metis div_mult_mod_eq nat_add_left_cancel_less)
    then have "digit_char (a mod 10) < digit_char (b mod 10)"
      by (intro digit_char_less) simp_all
    then have "[digit_char a] < [digit_char b]"
      by (simp add: digit_char_def)
    then show ?thesis
      using True by (simp add: less_append_same_prefix)
  next
    case False
    then have "a div 10 < b div 10" using le by simp
    then have "decimal w (a div 10) < decimal w (b div 10)"
      using bound by (rule Suc.IH)
    then show ?thesis
      by (simp add: less_append_same_length length_decimal)
  qed
qed

lemma iso_date_in_range:
  assumes "0 \<le> YearFromTime t" "YearFromTime t \<le> 9999"
  shows "iso_date t = decimal 4 (nat (YearFromTime t)) @ ''-''
     @ decimal 2 (nat (MonthFromTime t + 1)) @ ''-'' @ decimal 2 (nat (DateFromTime t))"
  using assms by (simp add: iso_date_def Let_def)

lemma iso_date_same_day: "Day t = Day t' \<Longrightarrow> iso_date t = iso_date t'"
  by (simp add: iso_date_def YearFromTime_def MonthFromTime_def DateFromTime_def
        DayWithinYear_def InLeapYear_def)

lemma iso_date_strict_mono:
  assumes "Day t < Day t'" and "0 \<le> YearFromTime t" and "YearFromTime t' \<le> 9999"
  shows "iso_date t < iso_date t'"
proof -
  let ?Y = "nat (YearFromTime t)" and ?Y' = "nat (YearFromTime t')"
  let ?M = "nat (MonthFromTime t + 1)" and ?M' = "nat (MonthFromTime t' + 1)"
  let ?D = "nat (DateFromTime t)" and ?D' = "nat (DateFromTime t')"
  have years: "YearFromTime t \<le> YearFromTime t'"
    unfolding YearFromTime_def using assms(1) by (intro YearFromDay_mono) simp
  then have range: "0 \<le> YearFromTime t" "YearFromTime t \<le> 9999"
    "0 \<le> YearFromTime t'" "YearFromTime t' \<le> 9999"
    using assms(2,3) by simp_all
  have t: "iso_date t = decimal 4 ?Y @ ''-'' @ decimal 2 ?M @ ''-'' @ decimal 2 ?D"
    and t': "iso_date t' = decimal 4 ?Y' @ ''-'' @ decimal 2 ?M' @ ''-'' @ decimal 2 ?D'"
    using range by (simp_all only: iso_date_in_range)
  have bounds: "?Y' < 10 ^ 4" "?M' < 10 ^ 2" "?D' < 10 ^ 2"
    using range MonthFromTime_bounds [of t'] DateFromTime_bounds [of t'] by simp_all
  consider (year) "YearFromTime t < YearFromTime t'"
    | (month) "YearFromTime t = YearFromTime t'" "MonthFromTime t < MonthFromTime t'"
    | (date) "YearFromTime t = YearFromTime t'" "MonthFromTime t = MonthFromTime t'"
        "DateFromTime t < DateFromTime t'"
    using civil_strict_mono [OF assms(1)] by blast
  then show ?thesis
  proof cases
    case year
    then have "?Y < ?Y'" using range by simp
    then have "decimal 4 ?Y < decimal 4 ?Y'"
      using bounds(1) by (rule decimal_less)
    then show ?thesis
      unfolding t t' by (intro less_append_same_length) (simp_all add: length_decimal)
  next
    case month
    then have "?M < ?M'" using MonthFromTime_bounds [of t] by simp
    then have "decimal 2 ?M < decimal 2 ?M'"
      using bounds(2) by (rule decimal_less)
    then have "decimal 2 ?M @ ''-'' @ decimal 2 ?D < decimal 2 ?M' @ ''-'' @ decimal 2 ?D'"
      by (intro less_append_same_length) (simp_all add: length_decimal)
    then have "''-'' @ decimal 2 ?M @ ''-'' @ decimal 2 ?D
        < ''-'' @ decimal 2 ?M' @ ''-'' @ decimal 2 ?D'"
      by (rule less_append_same_prefix)
    then show ?thesis
      unfolding t t' month(1) by (rule less_append_same_prefix)
  next
    case date
    then have "?D < ?D'" using DateFromTime_bounds [of t] by simp
    then have "decimal 2 ?D < decimal 2 ?D'"
      using bounds(3) by (rule decimal_less)
    then have "''-'' @ decimal 2 ?D < ''-'' @ decimal 2 ?D'"
      by (rule less_append_same_prefix)
    then have "decimal 2 ?M' @ ''-'' @ decimal 2 ?D < decimal 2 ?M' @ ''-'' @ decimal 2 ?D'"
      by (rule less_append_same_prefix)
    then have "''-'' @ decimal 2 ?M' @ ''-'' @ decimal 2 ?D
        < ''-'' @ decimal 2 ?M' @ ''-'' @ decimal 2 ?D'"
      by (rule less_append_same_prefix)
    then show ?thesis
      unfolding t t' date(1) date(2) by (rule less_append_same_prefix)
  qed
qed

lemma iso_date_order:
  assumes "0 \<le> YearFromTime t" "YearFromTime t \<le> 9999"
    and "0 \<le> YearFromTime t'" "YearFromTime t' \<le> 9999"
  shows "iso_date t < iso_date t' \<longleftrightarrow> Day t < Day t'"
proof
  assume "Day t < Day t'"
  then show "iso_date t < iso_date t'"
    using assms(1,4) by (rule iso_date_strict_mono)
next
  assume less: "iso_date t < iso_date t'"
  show "Day t < Day t'"
  proof (rule ccontr)
    assume "\<not> Day t < Day t'"
    then consider "Day t = Day t'" | "Day t' < Day t" by linarith
    then show False
    proof cases
      case 1
      then show False using less iso_date_same_day [of t t'] by simp
    next
      case 2
      then have "iso_date t' < iso_date t"
        using assms(3,2) by (rule iso_date_strict_mono)
      then show False using less by simp
    qed
  qed
qed


section \<open>The daily series\<close>

lemma map_of_own_set: "map_of (own_set obj k v) = (map_of obj)(k \<mapsto> v)"
proof (cases "map_of obj k")
  case None
  then show ?thesis
    by (auto simp: own_set_def map_add_def fun_eq_iff split: option.splits)
next
  case (Some w)
  have "map_of (map (\<lambda>(k', v'). if k' = k then (k', v) else (k', v')) obj) = (\<lambda>x. if x = k then (case map_of obj k of None \<Rightarrow> None | Some _ \<Rightarrow> Some v) else map_of obj x)"
    by (induction obj) (auto simp: fun_eq_iff)
  with Some show ?thesis by (auto simp: own_set_def fun_eq_iff)
qed

lemma keys_own_set:
  "map fst (own_set obj k v) = (if map_of obj k = None then map fst obj @ [k] else map fst obj)"
proof -
  have "map fst (map (\<lambda>(k', v'). if k' = k then (k', v) else (k', v')) obj) = map fst obj"
    by (induction obj) auto
  then show ?thesis by (simp add: own_set_def)
qed

lemma distinct_own_set:
  "distinct (map fst obj) \<Longrightarrow> distinct (map fst (own_set obj k v))"
  by (auto simp: keys_own_set map_of_eq_None_iff)

lemma set_Object_keys: "set (Object_keys obj) = fst ` set obj"
  by (auto simp: Object_keys_def Object_entries_def)

lemma distinct_Object_keys:
  assumes "distinct (map fst obj)"
  shows "distinct (Object_keys obj)"
proof -
  let ?ix = "filter (\<lambda>(k, v). is_array_index k) obj"
  let ?rest = "filter (\<lambda>(k, v). \<not> is_array_index k) obj"
  from assms have d: "distinct obj" and inj: "inj_on fst (set obj)"
    by (simp_all add: distinct_map)
  have "distinct (sort_key (\<lambda>(k, v). index_value k) ?ix @ ?rest)"
    using d by auto
  moreover have "set (sort_key (\<lambda>(k, v). index_value k) ?ix @ ?rest) \<subseteq> set obj"
    by auto
  ultimately show ?thesis
    unfolding Object_keys_def Object_entries_def distinct_map
    using inj by (blast intro: inj_on_subset)
qed

lemma sort_Object_keys:
  assumes "distinct (map fst obj)"
  shows "sort (Object_keys obj) = sorted_list_of_set (fst ` set obj)"
proof -
  have "sorted_list_of_set (set (Object_keys obj)) = sort (remdups (Object_keys obj))"
    by (rule sorted_list_of_set_sort_remdups)
  then show ?thesis
    using distinct_Object_keys [OF assms] by (simp add: set_Object_keys distinct_remdups_id)
qed

lemma group_by_day_invariant:
  "distinct (map fst (group_by_day metrics moodEntries))
   \<and> map_of (group_by_day metrics moodEntries) = grouped metrics moodEntries"
proof (induction moodEntries rule: rev_induct)
  case Nil
  show ?case by (simp add: group_by_day_def grouped_def fun_eq_iff)
next
  case (snoc e es)
  let ?obj = "group_by_day metrics es"
  have step: "group_by_day metrics (es @ [e]) = add_to_day metrics ?obj e"
    by (simp add: group_by_day_def)
  have dist: "distinct (map fst (add_to_day metrics ?obj e))"
    using snoc.IH by (simp add: add_to_day_def Let_def distinct_own_set split: option.splits)
  have "map_of (add_to_day metrics ?obj e) d = grouped metrics (es @ [e]) d" for d
  proof (cases "d = dateKey e")
    case False
    then show ?thesis
      using snoc.IH
      by (auto simp: add_to_day_def map_of_own_set grouped_def on_day_def
            split: option.splits)
  next
    case True
    show ?thesis
    proof (cases "dateKey e \<in> dateKey ` set es")
      case seen: True
      then show ?thesis
        using snoc.IH True
        by (auto simp: add_to_day_def Let_def map_of_own_set grouped_def on_day_def
              push_metrics_def fun_eq_iff split: option.splits)
    next
      case unseen: False
      then have "dateKey x \<noteq> dateKey e" if "x \<in> set es" for x
        using that by (metis imageI)
      then have "on_day (dateKey e) es = []"
        by (simp add: on_day_def filter_empty_conv)
      then show ?thesis
        using snoc.IH True unseen
        by (auto simp: add_to_day_def Let_def map_of_own_set grouped_def on_day_def
              push_metrics_def empty_dayStats_def fun_eq_iff split: option.splits)
    qed
  qed
  then show ?case using dist step by (simp add: fun_eq_iff)
qed

lemma concat_singletons:
  "(\<And>x. x \<in> set xs \<Longrightarrow> F x = [g x]) \<Longrightarrow> concat (map F xs) = map g xs"
  by (induction xs) simp_all

lemma daily_series_group_by_day:
  assumes "m \<in> set metrics"
  shows "daily_series (group_by_day metrics moodEntries) m
     = map (\<lambda>d. (d, Num (mean (map (metric_value m) (on_day d moodEntries)))))
         (sorted_list_of_set (dateKey ` set moodEntries))"
proof -
  let ?obj = "group_by_day metrics moodEntries"
  have inv: "distinct (map fst ?obj)" "map_of ?obj = grouped metrics moodEntries"
    using group_by_day_invariant by blast+
  have keys: "fst ` set ?obj = dateKey ` set moodEntries"
  proof -
    have "fst ` set ?obj = dom (map_of ?obj)" by (simp add: dom_map_of_conv_image_fst)
    also have "\<dots> = dateKey ` set moodEntries"
      by (auto simp: inv(2) grouped_def dom_def)
    finally show ?thesis .
  qed
  have sorted_keys: "sort (Object_keys ?obj) = sorted_list_of_set (dateKey ` set moodEntries)"
    using sort_Object_keys [OF inv(1)] keys by simp
  have "(case map_of ?obj d of Some dayStats \<Rightarrow> [(d, average_of (dayStats m))] | None \<Rightarrow> [])
      = [(d, Num (mean (map (metric_value m) (on_day d moodEntries))))]"
    if "d \<in> set (sorted_list_of_set (dateKey ` set moodEntries))" for d
  proof -
    from that have "d \<in> dateKey ` set moodEntries" by simp
    then have "on_day d moodEntries \<noteq> []"
      by (auto simp: on_day_def filter_empty_conv)
    then show ?thesis
      using \<open>d \<in> dateKey ` set moodEntries\<close> assms
      by (simp add: inv(2) grouped_def average_of_mean)
  qed
  then show ?thesis
    unfolding daily_series_def sorted_keys by (rule concat_singletons)
qed



lemma dash_in_iso_date: "CHR ''-'' \<in> set (iso_date t)"
  by (simp add: iso_date_def Let_def)

lemma no_dash_in_Object_prototype:
  "list_all (\<lambda>(inherited, text). CHR ''-'' \<notin> set inherited) Object_prototype"
  by code_simp

lemma iso_date_not_inherited: "map_of Object_prototype (iso_date t) = None"
proof -
  have "iso_date t \<notin> fst ` set Object_prototype"
    using no_dash_in_Object_prototype dash_in_iso_date [of t]
    by (auto simp: list_all_iff)
  then show ?thesis by (simp add: map_of_eq_None_iff)
qed

lemma metric_value_mood: "metric_value mood_metric = moodScore"
  by (rule ext) simp

lemma trend_data_values: "map snd (trend_data m moodEntries) = metric_values m moodEntries"
proof -
  have drop_key: "map snd (map (\<lambda>(entry, v). (dateKey entry, v)) zs) = map snd zs"
    for zs :: "(moodEntry \<times> real) list"
    by (induction zs) auto
  have "length moodEntries = length (metric_values m moodEntries)"
    by (simp add: metric_values_def)
  then have vals: "map snd (zip moodEntries (metric_values m moodEntries)) = metric_values m moodEntries"
    by (rule map_snd_zip)
  show ?thesis
  proof (cases "moodEntries = []")
    case True
    then show ?thesis by (simp add: trend_data_def metric_values_def)
  next
    case False
    then have "trend_data m moodEntries
        = map (\<lambda>(entry, v). (dateKey entry, v)) (zip moodEntries (metric_values m moodEntries))"
      by (simp add: trend_data_def)
    then show ?thesis by (simp only: drop_key vals)
  qed
qed

lemma trends_mood_analytics:
  "m \<in> set metrics \<Longrightarrow>
   trends (mood_analytics metrics moodEntries) m = daily_series (group_by_day metrics moodEntries) m"
  by (cases moodEntries)
    (simp_all add: mood_analytics_def Let_def initial_moodAnalytics_def daily_series_def
       group_by_day_def Object_keys_def Object_entries_def)

lemma daily_trend_series:
  assumes "m \<in> set metrics"
  shows "trends (mood_analytics metrics moodEntries) m
     = map (\<lambda>d. (d, Num (mean (map (metric_value m) (on_day d moodEntries)))))
         (sorted_list_of_set (dateKey ` set moodEntries))"
  using assms by (simp add: trends_mood_analytics daily_series_group_by_day)

lemma no_entries_no_trends: "trends (mood_analytics metrics []) m = []"
  by (simp add: mood_analytics_def initial_moodAnalytics_def)

lemma Day_day_start: "Day (n * msPerDay) = n"
  by (simp add: Day_def msPerDay_def)

lemma day_key_utc_day: "day_key (utc_day entry) = dateKey entry"
  unfolding day_key_def dateKey_def utc_day_def
  by (rule iso_date_same_day) (simp add: Day_day_start)

lemma dateKey_eq_iff:
  assumes "four_digit_year entry" "four_digit_year entry'"
  shows "dateKey entry = dateKey entry' \<longleftrightarrow> utc_day entry = utc_day entry'"
proof
  assume "utc_day entry = utc_day entry'"
  then show "dateKey entry = dateKey entry'"
    unfolding dateKey_def utc_day_def by (rule iso_date_same_day)
next
  assume same: "dateKey entry = dateKey entry'"
  show "utc_day entry = utc_day entry'"
  proof (rule ccontr)
    assume "utc_day entry \<noteq> utc_day entry'"
    then consider "Day (date entry) < Day (date entry')" | "Day (date entry') < Day (date entry)"
      unfolding utc_day_def by linarith
    then show False
    proof cases
      case 1
      then have "iso_date (date entry) < iso_date (date entry')"
        using assms by (intro iso_date_strict_mono) (simp_all add: four_digit_year_def)
      then show False using same by (simp add: dateKey_def)
    next
      case 2
      then have "iso_date (date entry') < iso_date (date entry)"
        using assms by (intro iso_date_strict_mono) (simp_all add: four_digit_year_def)
      then show False using same by (simp add: dateKey_def)
    qed
  qed
qed

lemma dateKey_less_iff:
  assumes "four_digit_year entry" "four_digit_year entry'"
  shows "dateKey entry < dateKey entry' \<longleftrightarrow> utc_day entry < utc_day entry'"
  using assms iso_date_order [of "date entry" "date entry'"]
  by (simp add: dateKey_def utc_day_def four_digit_year_def)

lemma sorted_keys_of_days:
  assumes "\<forall>entry\<in>set moodEntries. four_digit_year entry"
  shows "sorted_list_of_set (dateKey ` set moodEntries)
     = map day_key (sorted_list_of_set (utc_day ` set moodEntries))"
proof -
  let ?days = "sorted_list_of_set (utc_day ` set moodEntries)"
  have key_less: "day_key n < day_key n'"
    if "n \<in> utc_day ` set moodEntries" "n' \<in> utc_day ` set moodEntries" "n < n'" for n n'
    using that assms by (auto simp: day_key_utc_day dateKey_less_iff)
  have "sorted_wrt (<) ?days" by (simp add: strict_sorted_iff)
  then have "sorted_wrt (\<lambda>n n'. day_key n < day_key n') ?days"
    by (rule sorted_wrt_mono_rel [rotated]) (use key_less in auto)
  then have "sorted_wrt (<) (map day_key ?days)"
    by (simp add: sorted_wrt_map)
  then have "sorted (map day_key ?days)" "distinct (map day_key ?days)"
    by (simp_all add: strict_sorted_iff)
  moreover have "set (map day_key ?days) = dateKey ` set moodEntries"
    by (auto simp: day_key_utc_day image_iff)
  ultimately show ?thesis
    by (metis sorted_list_of_set.idem_if_sorted_distinct)
qed

lemma on_day_of_day:
  assumes "\<forall>entry\<in>set moodEntries. four_digit_year entry" "n \<in> utc_day ` set moodEntries"
  shows "on_day (day_key n) moodEntries = of_day n moodEntries"
proof -
  obtain e where e: "e \<in> set moodEntries" "utc_day e = n" using assms(2) by auto
  have "dateKey entry = day_key n \<longleftrightarrow> utc_day entry = n" if "entry \<in> set moodEntries" for entry
    using that e assms(1) dateKey_eq_iff [of entry e] by (simp add: day_key_utc_day [of e, symmetric])
  then show ?thesis
    unfolding on_day_def of_day_def by (intro filter_cong) auto
qed

lemma daily_trend_series_by_day:
  assumes "m \<in> set metrics" and "\<forall>entry\<in>set moodEntries. four_digit_year entry"
  shows "trends (mood_analytics metrics moodEntries) m
     = map (\<lambda>n. (day_key n, Num (mean (map (metric_value m) (of_day n moodEntries)))))
         (sorted_list_of_set (utc_day ` set moodEntries))"
proof -
  let ?days = "sorted_list_of_set (utc_day ` set moodEntries)"
  have "trends (mood_analytics metrics moodEntries) m
      = map (\<lambda>d. (d, Num (mean (map (metric_value m) (on_day d moodEntries)))))
          (map day_key ?days)"
    using assms by (simp only: daily_trend_series sorted_keys_of_days)
  also have "\<dots> = map (\<lambda>n. (day_key n,
      Num (mean (map (metric_value m) (on_day (day_key n) moodEntries))))) ?days"
    by (simp add: comp_def)
  also have "\<dots> = map (\<lambda>n. (day_key n,
      Num (mean (map (metric_value m) (of_day n moodEntries))))) ?days"
    using assms(2) by (intro map_cong) (simp_all add: on_day_of_day)
  finally show ?thesis .
qed

text \<open>
  Claim C8. For every list of mood entries and every metric the handler follows (the five
  of \<open>overview_metrics\<close>, the four of \<open>mood_stats_metrics\<close>), the daily series of the
  metric has one pair per calendar day that has an entry, no other, in ascending order of the
  day, and the value of a day is the arithmetic mean of the metric over the entries of that
  day. Without entries every series is empty. The days are the UTC days of the entries,
  written \<open>YYYY-MM-DD\<close>, and the order is that of these strings, which is what \<open>sort()\<close>
  compares; for entries in the years 0 to 9999 it is the order of the days themselves: the
  series then runs through the day numbers of the entries in ascending order.
\<close>

theorem daily_aggregator:
  "(m \<in> set metrics \<longrightarrow>
      trends (mood_analytics metrics moodEntries) m
        = map (\<lambda>d. (d, Num (mean (map (metric_value m) (on_day d moodEntries)))))
            (sorted_list_of_set (dateKey ` set moodEntries))
      \<and> distinct (map fst (trends (mood_analytics metrics moodEntries) m))
      \<and> sorted (map fst (trends (mood_analytics metrics moodEntries) m))
      \<and> set (map fst (trends (mood_analytics metrics moodEntries) m)) = dateKey ` set moodEntries)
   \<and> (m \<in> set metrics \<and> (\<forall>entry\<in>set moodEntries. four_digit_year entry) \<longrightarrow>
      trends (mood_analytics metrics moodEntries) m
        = map (\<lambda>n. (day_key n, Num (mean (map (metric_value m) (of_day n moodEntries)))))
            (sorted_list_of_set (utc_day ` set moodEntries)))
   \<and> trends (mood_analytics metrics []) m = []"
proof -
  have keys: "map fst (trends (mood_analytics metrics moodEntries) m)
      = sorted_list_of_set (dateKey ` set moodEntries)" if "m \<in> set metrics"
    by (simp add: daily_trend_series [OF that] comp_def)
  have by_key: "trends (mood_analytics metrics moodEntries) m
        = map (\<lambda>d. (d, Num (mean (map (metric_value m) (on_day d moodEntries)))))
            (sorted_list_of_set (dateKey ` set moodEntries))
      \<and> distinct (map fst (trends (mood_analytics metrics moodEntries) m))
      \<and> sorted (map fst (trends (mood_analytics metrics moodEntries) m))
      \<and> set (map fst (trends (mood_analytics metrics moodEntries) m)) = dateKey ` set moodEntries"
    if "m \<in> set metrics"
    using that by (simp add: keys) (rule daily_trend_series)
  show ?thesis
    using by_key daily_trend_series_by_day [of m metrics moodEntries] no_entries_no_trends
    by blast
qed

theorem daily_aggregator_witness:
  "mood_metric \<in> set overview_metrics
   \<and> list_all four_digit_year
       [\<lparr>date = 1730505600000, mood = happy, energy = 6, stress = 3, anxiety = 2, sleep_hours = 7\<rparr>,
        \<lparr>date = 1730419200000, mood = sad, energy = 4, stress = 8, anxiety = 6, sleep_hours = 5\<rparr>,
        \<lparr>date = 1730541600000, mood = very_happy, energy = 8, stress = 1, anxiety = 1, sleep_hours = 8\<rparr>]
   \<and> trends (mood_analytics overview_metrics
        [\<lparr>date = 1730505600000, mood = happy, energy = 6, stress = 3, anxiety = 2, sleep_hours = 7\<rparr>,
         \<lparr>date = 1730419200000, mood = sad, energy = 4, stress = 8, anxiety = 6, sleep_hours = 5\<rparr>,
         \<lparr>date = 1730541600000, mood = very_happy, energy = 8, stress = 1, anxiety = 1, sleep_hours = 8\<rparr>])
        mood_metric
      = [(''2024-11-01'', Num 2), (''2024-11-02'', Num (9 / 2))]
   \<and> map day_key [20028, 20029] = [''2024-11-01'', ''2024-11-02'']"
proof -
  let ?e1 = "\<lparr>date = 1730505600000, mood = happy, energy = 6, stress = 3, anxiety = 2, sleep_hours = 7\<rparr>"
  let ?e2 = "\<lparr>date = 1730419200000, mood = sad, energy = 4, stress = 8, anxiety = 6, sleep_hours = 5\<rparr>"
  let ?e3 = "\<lparr>date = 1730541600000, mood = very_happy, energy = 8, stress = 1, anxiety = 1, sleep_hours = 8\<rparr>"
  have days: "utc_day ?e1 = 20029" "utc_day ?e2 = 20028" "utc_day ?e3 = 20029"
    by (simp_all add: utc_day_def Day_def msPerDay_def)
  have keys: "day_key 20028 = ''2024-11-01''" "day_key 20029 = ''2024-11-02''"
    by code_simp+
  have years: "list_all four_digit_year [?e1, ?e2, ?e3]"
    by code_simp
  have sorted_days: "sorted_list_of_set (utc_day ` set [?e1, ?e2, ?e3]) = [20028, 20029]"
    by code_simp
  have m: "mood_metric \<in> set overview_metrics"
    by (simp add: overview_metrics_def)
  have "trends (mood_analytics overview_metrics [?e1, ?e2, ?e3]) mood_metric
      = map (\<lambda>n. (day_key n, Num (mean (map (metric_value mood_metric) (of_day n [?e1, ?e2, ?e3])))))
          (sorted_list_of_set (utc_day ` set [?e1, ?e2, ?e3]))"
    using daily_aggregator [of mood_metric overview_metrics "[?e1, ?e2, ?e3]"] m years
    unfolding list_all_iff by blast
  then show ?thesis
    unfolding sorted_days using m years
    by (simp add: days keys of_day_def mean_def moodScore_cases)
qed

text \<open>
  Claim C9. The mood score of an entry is 1 for \<open>very-sad\<close>, 2 for \<open>sad\<close>, 3 for
  \<open>neutral\<close>, 4 for \<open>happy\<close> and 5 for \<open>very-happy\<close>: the value of \<open>moodMap\<close> at the
  mood string. The statistics derived from the mood go through it: the average mood of the
  mood analytics, the value series and the statistics of the trends of the metric \<open>mood\<close>,
  and the daily mood series.
\<close>

theorem mood_score_mapping:
  "moodScore entry =
     (case mood entry of very_sad \<Rightarrow> 1 | sad \<Rightarrow> 2 | neutral \<Rightarrow> 3 | happy \<Rightarrow> 4 | very_happy \<Rightarrow> 5)
   \<and> map_of moodMap (mood_key (mood entry)) = Some (moodScore entry)
   \<and> map (map_of moodMap) [''very-sad'', ''sad'', ''neutral'', ''happy'', ''very-happy'']
       = [Some 1, Some 2, Some 3, Some 4, Some 5]
   \<and> averageMood (mood_analytics metrics moodEntries)
       = (if moodEntries = [] then Num 0 else Num (mean (map moodScore moodEntries)))
   \<and> snd (get_trends mood_metric moodEntries) = trend_statistics (map moodScore moodEntries)
   \<and> map snd (fst (get_trends mood_metric moodEntries)) = map moodScore moodEntries
   \<and> (mood_metric \<in> set metrics \<longrightarrow>
        trends (mood_analytics metrics moodEntries) mood_metric
          = map (\<lambda>d. (d, Num (mean (map moodScore (on_day d moodEntries)))))
              (sorted_list_of_set (dateKey ` set moodEntries)))"
proof -
  have "map_of moodMap (mood_key (mood entry)) = Some (moodScore entry)"
    using moodMap_total [of "mood entry"] by (auto simp: moodScore_def)
  moreover have "map (map_of moodMap) [''very-sad'', ''sad'', ''neutral'', ''happy'', ''very-happy'']
       = [Some 1, Some 2, Some 3, Some 4, Some 5]"
    by (simp add: moodMap_def)
  moreover have "averageMood (mood_analytics metrics moodEntries)
       = (if moodEntries = [] then Num 0 else Num (mean (map moodScore moodEntries)))"
    by (simp add: mood_analytics_def Let_def initial_moodAnalytics_def average_of_mean)
  moreover have "snd (get_trends mood_metric moodEntries) = trend_statistics (map moodScore moodEntries)"
    by (simp add: get_trends_def metric_values_def metric_value_mood)
  moreover have "map snd (fst (get_trends mood_metric moodEntries)) = map moodScore moodEntries"
    by (simp add: get_trends_def trend_data_values) (simp add: metric_values_def metric_value_mood)
  moreover have "trends (mood_analytics metrics moodEntries) mood_metric
          = map (\<lambda>d. (d, Num (mean (map moodScore (on_day d moodEntries)))))
              (sorted_list_of_set (dateKey ` set moodEntries))" if "mood_metric \<in> set metrics"
    using daily_trend_series [OF that, of moodEntries] by (simp add: metric_value_mood)
  ultimately show ?thesis using moodScore_cases by blast
qed

theorem mood_score_mapping_witness:
  "mood_metric \<in> set mood_stats_metrics
   \<and> moodScore \<lparr>date = 0, mood = very_happy, energy = 5, stress = 5, anxiety = 5, sleep_hours = 8\<rparr> = 5
   \<and> averageMood (mood_analytics mood_stats_metrics
        [\<lparr>date = 0, mood = very_happy, energy = 5, stress = 5, anxiety = 5, sleep_hours = 8\<rparr>,
         \<lparr>date = 86400000, mood = sad, energy = 5, stress = 5, anxiety = 5, sleep_hours = 8\<rparr>])
      = Num (7 / 2)"
  using mood_score_mapping [of
      "\<lparr>date = 0, mood = very_happy, energy = 5, stress = 5, anxiety = 5, sleep_hours = 8\<rparr>"
      mood_stats_metrics
      "[\<lparr>date = 0, mood = very_happy, energy = 5, stress = 5, anxiety = 5, sleep_hours = 8\<rparr>,
        \<lparr>date = 86400000, mood = sad, energy = 5, stress = 5, anxiety = 5, sleep_hours = 8\<rparr>]"]
  by (simp add: mood_stats_metrics_def mean_def moodScore_cases)


section \<open>The writing streak\<close>

lemma ceiling_days:
  "\<lceil>real_of_int (c - d) / real_of_int (1000 * 60 * 60 * 24)\<rceil> = days_between c d"
proof -
  have "\<lceil>real_of_int (c - d) / real_of_int (1000 * 60 * 60 * 24)\<rceil>
      = - (- (c - d) div (1000 * 60 * 60 * 24))"
    by (rule ceiling_divide_eq_div)
  also have "\<dots> = days_between c d"
    by (simp add: days_between_def msPerDay_def)
  finally show ?thesis .
qed

lemma streak_loop_step:
  "streak_loop offset k c (e # es) =
     (if days_between c (setHours0 offset (journal_date e)) = int k + 1
         \<or> (k = 0 \<and> days_between c (setHours0 offset (journal_date e)) \<le> 1)
      then streak_loop offset (k + 1) (setHours0 offset (journal_date e)) es
      else k)"
  by (simp only: streak_loop.simps Let_def ceiling_days)

lemma insert_by_date_desc:
  "insert_by by_date_desc x ys = insort_key (\<lambda>e. - journal_date e) x ys"
  by (induction ys) (simp_all add: by_date_desc_def)

lemma js_sort_by_date_desc: "js_sort by_date_desc xs = sort_key (\<lambda>e. - journal_date e) xs"
proof -
  have "insert_by by_date_desc = insort_key (\<lambda>e. - journal_date e)"
    by (intro ext) (rule insert_by_date_desc)
  then show ?thesis by (simp add: js_sort_def sort_key_def)
qed

lemma dates_descending:
  "map journal_date (js_sort by_date_desc xs) = rev (sort (map journal_date xs))"
proof -
  let ?ys = "sort_key (\<lambda>e. - journal_date e) xs"
  have "sorted (map (\<lambda>e. - journal_date e) ?ys)" by (rule sorted_sort_key)
  then have "sorted (map uminus (map journal_date ?ys))" by (simp add: comp_def)
  then have "sorted (rev (map journal_date ?ys))"
    by (simp add: sorted_wrt_rev sorted_map) (auto simp: sorted_wrt_map elim: sorted_wrt_mono_rel [rotated])
  moreover have "mset (rev (map journal_date ?ys)) = mset (map journal_date xs)" by simp
  ultimately have "sort (map journal_date xs) = rev (map journal_date ?ys)"
    by (metis properties_for_sort)
  then show ?thesis by (simp add: js_sort_by_date_desc)
qed

lemma walk_stopped: "stopped w \<Longrightarrow> foldl walk_step w ds = w"
  by (induction ds) (simp_all add: walk_step_def)

lemma walk_step_running:
  "walk_step \<lparr>streak = k, cursor = c, stopped = False\<rparr> d =
     (if days_between c d = int k + 1 \<or> (k = 0 \<and> days_between c d \<le> 1)
      then \<lparr>streak = k + 1, cursor = d, stopped = False\<rparr>
      else \<lparr>streak = k, cursor = c, stopped = True\<rparr>)"
  by (simp add: walk_step_def)

lemma streak_loop_walk:
  "streak_loop offset k c es
     = streak (foldl walk_step \<lparr>streak = k, cursor = c, stopped = False\<rparr>
                 (map (setHours0 offset) (map journal_date es)))"
proof (induction es arbitrary: k c)
  case Nil
  show ?case by simp
next
  case (Cons e es)
  show ?case
    using Cons.IH [of "k + 1" "setHours0 offset (journal_date e)"]
    by (simp add: streak_loop_step walk_step_running walk_stopped del: streak_loop.simps)
qed

lemma writingStreak_procedure:
  "writingStreak offset now journalEntries
     = streak_procedure offset (setHours0 offset now) journalEntries"
proof (cases "journalEntries = []")
  case True
  then show ?thesis by (simp add: writingStreak_def streak_procedure_def)
next
  case False
  then show ?thesis
    by (simp add: writingStreak_def streak_procedure_def streak_loop_walk dates_descending)
qed


lemma streak_loop_ge: "k \<le> streak_loop offset k c es"
proof (induction es arbitrary: k c)
  case Nil
  show ?case by simp
next
  case (Cons e es)
  show ?case
    using Cons.IH [of "k + 1" "setHours0 offset (journal_date e)"]
    by (simp add: streak_loop_step del: streak_loop.simps)
qed

lemma setHours0_mono: "t \<le> t' \<Longrightarrow> setHours0 offset t \<le> setHours0 offset t'"
proof -
  assume le: "t \<le> t'"
  have eq: "setHours0 offset u = (u + offset) div msPerDay * msPerDay - offset" for u
    unfolding setHours0_def by (simp add: algebra_simps minus_mod_eq_div_mult [symmetric])
  have "(t + offset) div msPerDay \<le> (t' + offset) div msPerDay"
    using le by (intro zdiv_mono1) (simp_all add: msPerDay_def)
  then have "(t + offset) div msPerDay * msPerDay \<le> (t' + offset) div msPerDay * msPerDay"
    by (intro mult_right_mono) (simp_all add: msPerDay_def)
  then show ?thesis by (simp add: eq)
qed

lemma days_between_antimono: "d \<le> d' \<Longrightarrow> days_between c d' \<le> days_between c d"
proof -
  assume "d \<le> d'"
  then have "(d - c) div msPerDay \<le> (d' - c) div msPerDay"
    by (intro zdiv_mono1) (simp_all add: msPerDay_def)
  then show ?thesis by (simp add: days_between_def)
qed

lemma most_recent_first:
  assumes "js_sort by_date_desc es = e0 # rest"
  shows "e0 \<in> set es \<and> (\<forall>e\<in>set es. journal_date e \<le> journal_date e0)"
proof -
  let ?ys = "sort_key (\<lambda>e. - journal_date e) es"
  have ys: "?ys = e0 # rest" using assms by (simp add: js_sort_by_date_desc)
  have "sorted (map (\<lambda>e. - journal_date e) ?ys)" by (rule sorted_sort_key)
  then have "\<forall>e\<in>set rest. journal_date e \<le> journal_date e0"
    unfolding ys by simp
  moreover have "set es = insert e0 (set rest)"
    using arg_cong [OF ys, of set] by simp
  ultimately show ?thesis by auto
qed

lemma streak_zero_iff:
  "writingStreak offset now es = 0 \<longleftrightarrow>
     (\<forall>e\<in>set es. 1 < days_between (setHours0 offset now) (setHours0 offset (journal_date e)))"
proof (cases "js_sort by_date_desc es")
  case Nil
  then have "length (sort_key (\<lambda>e. - journal_date e) es) = 0"
    by (simp add: js_sort_by_date_desc)
  then have "es = []" by simp
  then show ?thesis by (simp add: writingStreak_def)
next
  case (Cons e0 rest)
  then have nonempty: "es \<noteq> []" by (auto simp: js_sort_def)
  let ?today = "setHours0 offset now"
  let ?d0 = "setHours0 offset (journal_date e0)"
  have first: "e0 \<in> set es" and latest: "\<forall>e\<in>set es. journal_date e \<le> journal_date e0"
    using most_recent_first [OF Cons] by blast+
  have "writingStreak offset now es = 0 \<longleftrightarrow> 1 < days_between ?today ?d0"
    using nonempty streak_loop_ge [of 1 offset ?d0 rest]
    by (auto simp: writingStreak_def Cons streak_loop_step simp del: streak_loop.simps)
  also have "\<dots> \<longleftrightarrow> (\<forall>e\<in>set es. 1 < days_between ?today (setHours0 offset (journal_date e)))"
  proof
    assume far: "1 < days_between ?today ?d0"
    show "\<forall>e\<in>set es. 1 < days_between ?today (setHours0 offset (journal_date e))"
    proof
      fix e assume "e \<in> set es"
      then have "setHours0 offset (journal_date e) \<le> ?d0"
        using latest by (intro setHours0_mono) blast
      then have "days_between ?today ?d0 \<le> days_between ?today (setHours0 offset (journal_date e))"
        by (rule days_between_antimono)
      then show "1 < days_between ?today (setHours0 offset (journal_date e))"
        using far by linarith
    qed
  next
    assume "\<forall>e\<in>set es. 1 < days_between ?today (setHours0 offset (journal_date e))"
    then show "1 < days_between ?today ?d0" using first by blast
  qed
  finally show ?thesis .
qed

text \<open>
  Claim C3. For every list of journal entries and every time of the request, the writing
  streak is the value of the procedure of the specification run from the midnight of the
  request's day: the dates in descending order, streak 0 and the cursor at today, each record
  \<open>ceil((cursor - entryDate) / 1 day)\<close> days before the cursor, the streak extended and the
  cursor moved when that number is \<open>streak + 1\<close> (or at most 1 while the streak is 0), and
  the walk over at the first record for which it is not. The streak is 0 exactly when every
  record is more than one day before today.
\<close>

theorem streak_algorithm:
  "writingStreak offset now journalEntries
     = streak_procedure offset (setHours0 offset now) journalEntries
   \<and> (writingStreak offset now journalEntries = 0 \<longleftrightarrow>
        (\<forall>entry\<in>set journalEntries.
           1 < days_between (setHours0 offset now) (setHours0 offset (journal_date entry))))"
  using writingStreak_procedure streak_zero_iff by blast

theorem streak_algorithm_witness:
  "writingStreak 0 1730559600000
     [\<lparr>journal_date = 1730278800000, tags = []\<rparr>, \<lparr>journal_date = 1730491200000, tags = []\<rparr>] = 2
   \<and> streak_procedure 0 (setHours0 0 1730559600000)
     [\<lparr>journal_date = 1730278800000, tags = []\<rparr>, \<lparr>journal_date = 1730491200000, tags = []\<rparr>] = 2
   \<and> writingStreak 0 1730559600000 [\<lparr>journal_date = 1730278800000, tags = []\<rparr>] = 0
   \<and> 1 < days_between (setHours0 0 1730559600000) (setHours0 0 1730278800000)"
proof -
  have "writingStreak 0 1730559600000
     [\<lparr>journal_date = 1730278800000, tags = []\<rparr>, \<lparr>journal_date = 1730491200000, tags = []\<rparr>] = 2"
    by (simp add: writingStreak_def js_sort_def by_date_desc_def setHours0_def msPerDay_def
          Let_def)
  moreover have "1 < days_between (setHours0 0 1730559600000) (setHours0 0 1730278800000)"
    by (simp add: days_between_def setHours0_def msPerDay_def)
  ultimately show ?thesis
    using streak_algorithm [of 0 1730559600000
        "[\<lparr>journal_date = 1730278800000, tags = []\<rparr>, \<lparr>journal_date = 1730491200000, tags = []\<rparr>]"]
      streak_algorithm [of 0 1730559600000 "[\<lparr>journal_date = 1730278800000, tags = []\<rparr>]"]
    by simp
qed

text \<open>
  Claim C2 does not hold of the code. For one entry of today, one of yesterday and one of
  three days ago, whatever their times of day and their order in the input, the streak is 1
  and not 2: the entry of today sets the streak to 1 and moves the cursor to today, and the
  entry of yesterday is then one day before the cursor, where the test asks for
  \<open>streak + 1 = 2\<close>.
\<close>

theorem streak_today_yesterday_gap:
  assumes a: "setHours0 offset (journal_date a) = setHours0 offset now"
    and b: "setHours0 offset (journal_date b) = setHours0 offset now - msPerDay"
    and c: "setHours0 offset (journal_date c) = setHours0 offset now - 3 * msPerDay"
    and entries: "mset journalEntries = {#a, b, c#}"
  shows "writingStreak offset now journalEntries = 1"
proof -
  let ?today = "setHours0 offset now"
  have ba: "journal_date b < journal_date a"
  proof (rule ccontr)
    assume "\<not> journal_date b < journal_date a"
    then have "setHours0 offset (journal_date a) \<le> setHours0 offset (journal_date b)"
      by (intro setHours0_mono) simp
    then show False using a b by (simp add: msPerDay_def)
  qed
  have cb: "journal_date c < journal_date b"
  proof (rule ccontr)
    assume "\<not> journal_date c < journal_date b"
    then have "setHours0 offset (journal_date b) \<le> setHours0 offset (journal_date c)"
      by (intro setHours0_mono) simp
    then show False using b c by (simp add: msPerDay_def)
  qed
  have "mset [journal_date c, journal_date b, journal_date a] = mset (map journal_date journalEntries)"
    using arg_cong [OF entries, of "image_mset journal_date"] by (simp add: add.commute)
  moreover have "sorted [journal_date c, journal_date b, journal_date a]"
    using ba cb by simp
  ultimately have "sort (map journal_date journalEntries)
      = [journal_date c, journal_date b, journal_date a]"
    by (rule properties_for_sort)
  then have "writingStreak offset now journalEntries
      = streak (foldl walk_step \<lparr>streak = 0, cursor = ?today, stopped = False\<rparr>
          [?today, ?today - msPerDay, ?today - 3 * msPerDay])"
    by (simp add: writingStreak_procedure streak_procedure_def a b c)
  also have "\<dots> = 1"
    by (simp add: walk_step_running days_between_def walk_stopped walk_step_def msPerDay_def)
  finally show ?thesis .
qed

text \<open>
  The request at 15:00 on 2 November 2024 (UTC), with entries of that day at 10:00, of the
  day before at 20:00 and of three days before at 09:00.
\<close>

theorem streak_today_yesterday_gap_witness:
  "setHours0 0 1730541600000 = setHours0 0 1730559600000
   \<and> setHours0 0 1730491200000 = setHours0 0 1730559600000 - msPerDay
   \<and> setHours0 0 1730278800000 = setHours0 0 1730559600000 - 3 * msPerDay
   \<and> writingStreak 0 1730559600000
       [\<lparr>journal_date = 1730278800000, tags = []\<rparr>,
        \<lparr>journal_date = 1730491200000, tags = []\<rparr>,
        \<lparr>journal_date = 1730541600000, tags = []\<rparr>] = 1"
  using streak_today_yesterday_gap [of 0 "\<lparr>journal_date = 1730541600000, tags = []\<rparr>"
      1730559600000 "\<lparr>journal_date = 1730491200000, tags = []\<rparr>"
      "\<lparr>journal_date = 1730278800000, tags = []\<rparr>"
      "[\<lparr>journal_date = 1730278800000, tags = []\<rparr>,
        \<lparr>journal_date = 1730491200000, tags = []\<rparr>,
        \<lparr>journal_date = 1730541600000, tags = []\<rparr>]"]
  by (simp add: setHours0_def msPerDay_def)

section \<open>The most used tags\<close>

lemma first_seen_snoc:
  "first_seen (ts @ [t]) = (if t \<in> set ts then first_seen ts else first_seen ts @ [t])"
  by (simp add: first_seen_def)

lemma set_first_seen: "set (first_seen ts) = set ts"
  by (simp add: first_seen_def)

lemma distinct_first_seen: "distinct (first_seen ts)"
  by (simp add: first_seen_def)

lemma foldl_nested:
  "foldl (\<lambda>acc x. foldl f acc (g x)) a xs = foldl f a (concat (map g xs))"
  by (induction xs arbitrary: a) simp_all

lemma count_tags_flat: "count_tags journalEntries = foldl count_tag [] (all_tags journalEntries)"
  by (simp add: count_tags_def all_tags_def foldl_nested)

lemma proto_inherited: "inherited ''__proto__''"
  by (simp add: inherited_def Object_prototype_def)

lemma own_set_fresh: "k \<notin> set ks \<Longrightarrow> own_set (map (\<lambda>u. (u, f u)) ks) k v = map (\<lambda>u. (u, f u)) ks @ [(k, v)]"
  by (simp add: own_set_def map_of_eq_None_iff image_image)

lemma own_set_present:
  "k \<in> set ks \<Longrightarrow> own_set (map (\<lambda>u. (u, f u)) ks) k v = map (\<lambda>u. (u, (f(k := v)) u)) ks"
proof -
  assume "k \<in> set ks"
  then have "map_of (map (\<lambda>u. (u, f u)) ks) k \<noteq> None"
    by (simp add: map_of_eq_None_iff image_image)
  then show ?thesis by (auto simp: own_set_def)
qed

lemma map_of_counts:
  "map_of (map (\<lambda>u. (u, f u)) ks) k = (if k \<in> set ks then Some (f k) else None)"
  by (induction ks) auto

lemma count_pass:
  assumes "\<forall>t\<in>set ts. \<not> inherited t"
  shows "foldl count_tag [] ts = map (\<lambda>t. (t, JNum (count_list ts t))) (first_seen ts)"
  using assms
proof (induction ts rule: rev_induct)
  case Nil
  show ?case by (simp add: first_seen_def)
next
  case (snoc t ts)
  let ?obj = "map (\<lambda>u. (u, JNum (count_list ts u))) (first_seen ts)"
  have IH: "foldl count_tag [] ts = ?obj" using snoc by simp
  have plain: "map_of Object_prototype t = None" and not_proto: "t \<noteq> ''__proto__''"
    using snoc.prems proto_inherited by (auto simp: inherited_def)
  have step: "foldl count_tag [] (ts @ [t]) = count_tag ?obj t"
    by (simp add: IH)
  show ?case
  proof (cases "t \<in> set ts")
    case True
    have "count_tag ?obj t
        = map (\<lambda>u. (u, ((\<lambda>u. JNum (count_list ts u))(t := JNum (count_list ts t + 1))) u))
            (first_seen ts)"
      using not_proto True
      by (simp add: count_tag_def map_of_counts set_first_seen own_set_present)
    also have "\<dots> = map (\<lambda>u. (u, JNum (count_list (ts @ [t]) u))) (first_seen ts)"
      by (rule map_cong) auto
    finally show ?thesis
      using True by (simp only: step first_seen_snoc if_True)
  next
    case False
    have same: "map (\<lambda>u. (u, JNum (count_list (ts @ [t]) u))) (first_seen ts) = ?obj"
      using False by (intro map_cong) (auto simp: set_first_seen)
    have one: "count_list (ts @ [t]) t = 1"
      using False by simp
    have "count_tag ?obj t = ?obj @ [(t, JNum 1)]"
      using not_proto plain False
      by (simp add: count_tag_def map_of_counts set_first_seen own_set_fresh)
    also have "\<dots> = map (\<lambda>u. (u, JNum (count_list (ts @ [t]) u))) (first_seen ts @ [t])"
      unfolding map_append same by (simp only: one list.map)
    finally show ?thesis
      using False by (simp only: step first_seen_snoc if_False)
  qed
qed


lemma insort_key_map:
  "insort_key f (g x) (map g ys) = map g (insort_key (\<lambda>y. f (g y)) x ys)"
  by (induction ys) simp_all

lemma sort_key_map: "sort_key f (map g xs) = map g (sort_key (\<lambda>y. f (g y)) xs)"
  by (induction xs) (simp_all add: insort_key_map)

lemma Object_entries_map:
  "Object_entries (map (\<lambda>t. (t, v t)) ks) = map (\<lambda>t. (t, v t)) (key_order ks)"
  by (simp add: Object_entries_def key_order_def filter_map comp_def sort_key_map)

lemma insert_by_count_desc:
  "insert_by by_count_desc (t, JNum c) (map (\<lambda>(t, c). (t, JNum c)) ys)
     = map (\<lambda>(t, c). (t, JNum c)) (insort_key (\<lambda>(t, c). - int c) (t, c) ys)"
  by (induction ys) auto

lemma js_sort_by_count_desc:
  "js_sort by_count_desc (map (\<lambda>(t, c). (t, JNum c)) xs)
     = map (\<lambda>(t, c). (t, JNum c)) (sort_key (\<lambda>(t, c). - int c) xs)"
proof -
  have "foldr (insert_by by_count_desc) (map (\<lambda>(t, c). (t, JNum c)) xs) []
      = map (\<lambda>(t, c). (t, JNum c)) (foldr (insort_key (\<lambda>(t, c). - int c)) xs [])"
  proof (induction xs)
    case Nil
    show ?case by simp
  next
    case (Cons x xs)
    obtain t c where x: "x = (t, c)" by (cases x)
    show ?case using Cons.IH by (simp add: x insert_by_count_desc)
  qed
  then show ?thesis by (simp add: js_sort_def sort_key_def)
qed

lemma mostUsedTags_ranker:
  assumes "\<forall>t\<in>set (all_tags journalEntries). \<not> inherited t"
  shows "mostUsedTags journalEntries
     = map (\<lambda>(t, c). (t, JNum c)) (ranker_in_key_order 10 (all_tags journalEntries))"
proof (cases "journalEntries = []")
  case True
  then show ?thesis
    by (simp add: mostUsedTags_def all_tags_def ranker_in_key_order_def first_seen_def key_order_def)
next
  case False
  let ?ts = "all_tags journalEntries"
  have "count_tags journalEntries = map (\<lambda>t. (t, JNum (count_list ?ts t))) (first_seen ?ts)"
    using assms by (simp add: count_tags_flat count_pass)
  then have "Object_entries (count_tags journalEntries)
      = map (\<lambda>t. (t, JNum (count_list ?ts t))) (key_order (first_seen ?ts))"
    by (simp add: Object_entries_map)
  also have "\<dots> = map (\<lambda>(t, c). (t, JNum c))
        (map (\<lambda>t. (t, count_list ?ts t)) (key_order (first_seen ?ts)))"
    by simp
  finally have "js_sort by_count_desc (Object_entries (count_tags journalEntries))
      = map (\<lambda>(t, c). (t, JNum c))
          (sort_key (\<lambda>(t, c). - int c)
             (map (\<lambda>t. (t, count_list ?ts t)) (key_order (first_seen ?ts))))"
    by (simp only: js_sort_by_count_desc)
  then show ?thesis
    using False by (simp add: mostUsedTags_def ranker_in_key_order_def take_map)
qed

lemma key_order_no_index: "\<forall>k\<in>set ks. \<not> is_array_index k \<Longrightarrow> key_order ks = ks"
  by (simp add: key_order_def filter_id_conv filter_empty_conv)

text \<open>
  A tag that is the name of a property of \<open>Object.prototype\<close> is not counted: the first
  read finds the inherited value, and what is stored is a string.
\<close>

lemma inherited_tag_not_counted:
  "mostUsedTags [\<lparr>journal_date = 0, tags = [''constructor'']\<rparr>]
     = [(''constructor'', JStr ''function Object() { [native code] }1'')]"
  by code_simp

text \<open>
  Claim C6, as amended. For every list of journal entries none of whose tags is the name of
  a property of \<open>Object.prototype\<close>, the most used tags are the first ten pairs of tag and
  number of occurrences, in descending order of the number; tags with the same number come
  in the order in which the object \<open>tagCounts\<close> lists its keys: tags that are array indices
  first, in ascending numeric order, then the other tags in the order in which they were
  first met. When no tag is an array index either, this is the order of the first meeting
  throughout. Without entries the list is empty, and the tags \<open>a, b, a, c, b, a\<close> give
  \<open>(a, 3), (b, 2), (c, 1)\<close>.
\<close>

theorem most_used_tags:
  "((\<forall>t\<in>set (all_tags journalEntries). \<not> inherited t) \<longrightarrow>
      mostUsedTags journalEntries
        = map (\<lambda>(t, c). (t, JNum c)) (ranker_in_key_order 10 (all_tags journalEntries)))
   \<and> ((\<forall>t\<in>set (all_tags journalEntries). \<not> inherited t \<and> \<not> is_array_index t) \<longrightarrow>
      mostUsedTags journalEntries
        = map (\<lambda>(t, c). (t, JNum c)) (frequency_ranker 10 (all_tags journalEntries)))
   \<and> mostUsedTags [] = []
   \<and> mostUsedTags [\<lparr>journal_date = 0, tags = [''a'', ''b'', ''a'', ''c'', ''b'', ''a'']\<rparr>]
       = [(''a'', JNum 3), (''b'', JNum 2), (''c'', JNum 1)]"
proof -
  have plain: "mostUsedTags journalEntries
        = map (\<lambda>(t, c). (t, JNum c)) (frequency_ranker 10 (all_tags journalEntries))"
    if "\<forall>t\<in>set (all_tags journalEntries). \<not> inherited t \<and> \<not> is_array_index t"
  proof -
    have "key_order (first_seen (all_tags journalEntries)) = first_seen (all_tags journalEntries)"
      using that by (intro key_order_no_index) (simp add: set_first_seen)
    then show ?thesis
      using that by (simp add: mostUsedTags_ranker ranker_in_key_order_def frequency_ranker_def)
  qed
  have example: "mostUsedTags [\<lparr>journal_date = 0, tags = [''a'', ''b'', ''a'', ''c'', ''b'', ''a'']\<rparr>]
       = [(''a'', JNum 3), (''b'', JNum 2), (''c'', JNum 1)]"
    by code_simp
  show ?thesis
    using mostUsedTags_ranker plain example by (simp add: mostUsedTags_def)
qed

theorem most_used_tags_witness:
  "list_all (\<lambda>t. \<not> inherited t) [''work'', ''2024'', ''work'', ''rest'']
   \<and> mostUsedTags
       [\<lparr>journal_date = 0, tags = [''work'', ''2024'', ''work'']\<rparr>, \<lparr>journal_date = 1, tags = [''rest'']\<rparr>]
     = [(''work'', JNum 2), (''2024'', JNum 1), (''rest'', JNum 1)]
   \<and> map (\<lambda>(t, c). (t, JNum c)) (ranker_in_key_order 10 [''work'', ''2024'', ''work'', ''rest''])
     = [(''work'', JNum 2), (''2024'', JNum 1), (''rest'', JNum 1)]"
proof -
  have plain: "list_all (\<lambda>t. \<not> inherited t) [''work'', ''2024'', ''work'', ''rest'']"
    by (simp add: inherited_def Object_prototype_def)
  have ranked: "map (\<lambda>(t, c). (t, JNum c))
       (ranker_in_key_order 10 [''work'', ''2024'', ''work'', ''rest''])
     = [(''work'', JNum 2), (''2024'', JNum 1), (''rest'', JNum 1)]"
    by code_simp
  show ?thesis
    using most_used_tags [of
        "[\<lparr>journal_date = 0, tags = [''work'', ''2024'', ''work'']\<rparr>, \<lparr>journal_date = 1, tags = [''rest'']\<rparr>]"]
      plain ranked
    by (simp add: all_tags_def)
qed

text \<open>
  Claim C6 as stated fails: of the tags \<open>work\<close> and \<open>2024\<close>, each used once and met in
  this order, \<open>2024\<close> comes first in the result, because it is an array index.
\<close>

theorem first_seen_tie_break_fails:
  "mostUsedTags [\<lparr>journal_date = 0, tags = [''work'', ''2024'']\<rparr>]
     = [(''2024'', JNum 1), (''work'', JNum 1)]
   \<and> map (\<lambda>(t, c). (t, JNum c)) (frequency_ranker 10 [''work'', ''2024''])
     = [(''work'', JNum 1), (''2024'', JNum 1)]
   \<and> mostUsedTags [\<lparr>journal_date = 0, tags = [''work'', ''2024'']\<rparr>]
     \<noteq> map (\<lambda>(t, c). (t, JNum c)) (frequency_ranker 10 [''work'', ''2024''])"
proof -
  have code: "mostUsedTags [\<lparr>journal_date = 0, tags = [''work'', ''2024'']\<rparr>]
     = [(''2024'', JNum 1), (''work'', JNum 1)]"
    by code_simp
  have spec: "map (\<lambda>(t, c). (t, JNum c)) (frequency_ranker 10 [''work'', ''2024''])
     = [(''work'', JNum 1), (''2024'', JNum 1)]"
    by code_simp
  show ?thesis unfolding code spec by simp
qed

section \<open>Insights and recommendations\<close>

lemma low_not_great: "js_lt a (Num 3) \<Longrightarrow> \<not> js_gt a (Num 4)"
  by (cases a) (simp_all add: js_gt_def)

lemma insights_by_table:
  "insights_and_recommendations v = (table_insights v, table_recommendations v)"
proof -
  have mood: "mood_insights v ([], []) =
      (List.map_filter (\<lambda>r. if condition r v then insight r v else None) (take 2 rule_table),
       List.map_filter (\<lambda>r. if condition r v then recommendation r v else None) (take 2 rule_table))"
    using low_not_great [of "mood_averageMood v"]
    by (auto simp: mood_insights_def rule_table_def map_filter_simps)
  show ?thesis
    unfolding insights_and_recommendations_def mood
    by (cases "topActivities v")
      (simp_all add: sleep_insights_def stress_insights_def activity_insights_def
        journal_insights_def table_insights_def table_recommendations_def rule_table_def
        top_ranked_def map_filter_simps)
qed

lemma low_mood_insight_distinct:
  "low_mood_insight \<noteq> great_mood_insight" "low_mood_insight \<noteq> sleep_insight"
  "low_mood_insight \<noteq> stress_insight" "low_mood_insight \<noteq> activity_insight a"
  "low_mood_insight \<noteq> streak_insight n"
  by (simp_all add: low_mood_insight_def great_mood_insight_def sleep_insight_def
        stress_insight_def activity_insight_def streak_insight_def)

text \<open>
  Claim C7. For every input the insights and the recommendations of the handler are those
  of the table of seven rules, each rule looked at by itself and in the order of the table
  (mood below 3, mood above 4, sleep below 7, stress above 7, a top activity, a streak above
  7, a streak of 0 with at least one entry), so that several rules can give their strings at
  once. An average mood of 2 gives the insight on a low mood and its recommendation; an
  average mood of 4.5 gives the insight on a great mood and not the one on a low mood.
\<close>

theorem insight_rule_table:
  "insights_and_recommendations v = (table_insights v, table_recommendations v)
   \<and> (mood_averageMood v = Num 2 \<longrightarrow>
        low_mood_insight \<in> set (fst (insights_and_recommendations v))
        \<and> low_mood_recommendation \<in> set (snd (insights_and_recommendations v)))
   \<and> (mood_averageMood v = Num (9 / 2) \<longrightarrow>
        great_mood_insight \<in> set (fst (insights_and_recommendations v))
        \<and> low_mood_insight \<notin> set (fst (insights_and_recommendations v)))"
proof -
  have low: "low_mood_insight \<in> set (table_insights v)
      \<and> low_mood_recommendation \<in> set (table_recommendations v)"
    if "mood_averageMood v = Num 2"
    using that
    by (simp add: table_insights_def table_recommendations_def rule_table_def map_filter_simps)
  have great: "great_mood_insight \<in> set (table_insights v)
      \<and> low_mood_insight \<notin> set (table_insights v)"
    if "mood_averageMood v = Num (9 / 2)"
    using that low_mood_insight_distinct
    by (auto simp: table_insights_def rule_table_def map_filter_simps js_gt_def
          split: option.splits if_splits)
  show ?thesis using low great by (simp add: insights_by_table)
qed

theorem insight_rule_table_witness:
  "mood_averageMood \<lparr>mood_averageMood = Num 2, mood_averageSleep = Num 6,
      mood_averageStress = Num 8, topActivities = [\<lparr>name = ''Yoga'', category = ''exercise''\<rparr>],
      journal_writingStreak = 0, journal_totalEntries = 3\<rparr> = Num 2
   \<and> insights_and_recommendations \<lparr>mood_averageMood = Num 2, mood_averageSleep = Num 6,
      mood_averageStress = Num 8, topActivities = [\<lparr>name = ''Yoga'', category = ''exercise''\<rparr>],
      journal_writingStreak = 0, journal_totalEntries = 3\<rparr>
     = ([low_mood_insight, sleep_insight, stress_insight,
         ''Your most positive activity is Yoga (exercise).''],
        [low_mood_recommendation, sleep_recommendation, stress_recommendation,
         ''Try to incorporate more Yoga into your daily routine.'', journal_recommendation])"
  using insight_rule_table [of "\<lparr>mood_averageMood = Num 2, mood_averageSleep = Num 6,
      mood_averageStress = Num 8, topActivities = [\<lparr>name = ''Yoga'', category = ''exercise''\<rparr>],
      journal_writingStreak = 0, journal_totalEntries = 3\<rparr>"]
  by (simp add: table_insights_def table_recommendations_def rule_table_def map_filter_simps
        js_gt_def top_ranked_def activity_insight_def activity_recommendation_def)


end
